theory Spec2Isabelle
  imports Complex_Main "HOL-Library.Sublist"
begin

section \<open>Python strings\<close>

text \<open>
  A Python \<open>str\<close> is a sequence of code points. The texts of this development are
  \<^typ>\<open>string\<close>s whose characters stand for the code points below 256 (Latin-1, which
  holds the accented letters of French); \<open>of_char\<close> gives the code point. The
  patterns of the source may name any code point, so they hold natural numbers.
\<close>

definition py_lower_char :: "char \<Rightarrow> char" where
  \<comment> \<open>\<open>str.lower\<close> on one code point below 256: \<open>A-Z\<close> and the capital letters
      U+00C0..U+00DE (U+00D7 is the multiplication sign) move up by 32.\<close>
  "py_lower_char c =
     (let n = (of_char c :: nat)
      in if (65 \<le> n \<and> n \<le> 90) \<or> (192 \<le> n \<and> n \<le> 222 \<and> n \<noteq> 215)
         then char_of (n + 32) else c)"

definition py_lower :: "string \<Rightarrow> string" where
  "py_lower s = map py_lower_char s"

definition py_in :: "string \<Rightarrow> string \<Rightarrow> bool" where
  \<comment> \<open>\<open>sub in s\<close> on strings: \<open>sub\<close> occurs in \<open>s\<close> as a contiguous piece.\<close>
  "py_in sub s = sublist sub s"

definition py_isspace :: "char \<Rightarrow> bool" where
  \<comment> \<open>\<open>str.isspace\<close>, which is also the class \<open>\s\<close> of \<open>re\<close> on \<open>str\<close> patterns.\<close>
  "py_isspace c =
     (let n = (of_char c :: nat)
      in (9 \<le> n \<and> n \<le> 13) \<or> (28 \<le> n \<and> n \<le> 32) \<or> n = 133 \<or> n = 160)"

definition py_isdigit :: "char \<Rightarrow> bool" where
  \<comment> \<open>the class \<open>\d\<close>: below 256 the only decimal digits are \<open>0-9\<close>.\<close>
  "py_isdigit c = (let n = (of_char c :: nat) in 48 \<le> n \<and> n \<le> 57)"

definition digit_char :: "nat \<Rightarrow> char" where
  "digit_char d = char_of (48 + d)"

fun str_nat :: "nat \<Rightarrow> string" where
  "str_nat n = (if n < 10 then [digit_char n] else str_nat (n div 10) @ [digit_char (n mod 10)])"

declare str_nat.simps [simp del]

definition py_str_int :: "int \<Rightarrow> string" where
  \<comment> \<open>\<open>str(i)\<close>, which is also what \<open>f"{i}"\<close> prints for an \<open>int\<close>.\<close>
  "py_str_int i = (if i < 0 then CHR ''-'' # str_nat (nat (- i)) else str_nat (nat i))"

definition digit_val :: "char \<Rightarrow> nat" where
  "digit_val c = of_char c - 48"

definition py_int :: "string \<Rightarrow> int" where
  \<comment> \<open>\<open>int(s)\<close> on a string of decimal digits (the source calls it on a match of
      \<open>\d{1,2}\<close> only).\<close>
  "py_int s = int (foldl (\<lambda>acc c. 10 * acc + digit_val c) 0 s)"

definition py_iscased :: "char \<Rightarrow> bool" where
  \<comment> \<open>the cased code points below 256: the letters, and U+00AA, U+00B5, U+00BA\<close>
  "py_iscased c =
     (let n = (of_char c :: nat)
      in (65 \<le> n \<and> n \<le> 90) \<or> (97 \<le> n \<and> n \<le> 122) \<or> n = 170 \<or> n = 181 \<or> n = 186
         \<or> (192 \<le> n \<and> n \<le> 255 \<and> n \<noteq> 215 \<and> n \<noteq> 247))"

definition title_char :: "char \<Rightarrow> nat list" where
  \<comment> \<open>the title-case form of one code point below 256, as code points: the small
      letters move down by 32, but U+00DF gives \<open>Ss\<close>, U+00B5 gives U+039C and U+00FF
      gives U+0178\<close>
  "title_char c =
     (let n = (of_char c :: nat)
      in if (97 \<le> n \<and> n \<le> 122) \<or> (224 \<le> n \<and> n \<le> 254 \<and> n \<noteq> 247) then [n - 32]
         else if n = 223 then [83, 115]
         else if n = 181 then [924]
         else if n = 255 then [376]
         else [n])"

definition ustr :: "string \<Rightarrow> nat list" where
  \<comment> \<open>a text as its code points\<close>
  "ustr s = map of_char s"

fun title_from :: "bool \<Rightarrow> string \<Rightarrow> nat list" where
  \<comment> \<open>\<open>prev\<close>: the character before is cased\<close>
  "title_from prev [] = []"
| "title_from prev (c # cs) =
     (if prev then [of_char (py_lower_char c)] else title_char c) @ title_from (py_iscased c) cs"

definition py_title :: "string \<Rightarrow> nat list" where
  \<comment> \<open>\<open>str.title\<close>: a character after a cased one is lowered, any other takes its
      title-case form. The result can leave the code points below 256, so it is a list
      of code points.\<close>
  "py_title s = title_from False s"

fun join_comma :: "nat list list \<Rightarrow> nat list" where
  \<comment> \<open>\<open>', '.join(xs)\<close>\<close>
  "join_comma [] = []"
| "join_comma [x] = x"
| "join_comma (x # y # ys) = x @ ustr '', '' @ join_comma (y # ys)"

section \<open>Regular expressions\<close>

text \<open>
  The patterns of \<open>parser.py\<close> use literals, classes, \<open>.\<close>, \<open>\s\<close>, \<open>\d\<close>,
  alternation and the greedy quantifiers \<open>*\<close>, \<open>+\<close>, \<open>?\<close>. \<open>mp r s\<close> lists what
  is left of \<open>s\<close> after each way \<open>r\<close> matches a prefix of \<open>s\<close>, in the order in which
  a backtracking matcher tries them (left alternative first, longer repetition first).
  The file as it stands holds its accented letters mis-decoded (each one as two or
  three other code points, such as U+221A U+2020 for a grave); the patterns below are
  the ones the file holds, code point by code point.
\<close>

datatype rx =
    Lit nat              \<comment> \<open>one code point\<close>
  | Str string           \<comment> \<open>a run of literal characters\<close>
  | OneOf "nat list"     \<comment> \<open>\<open>[...]\<close>\<close>
  | Dot                  \<comment> \<open>\<open>.\<close>: anything but a newline\<close>
  | Space                \<comment> \<open>\<open>\s\<close>\<close>
  | Digit                \<comment> \<open>\<open>\d\<close>\<close>
  | Seq rx rx
  | Alt rx rx
  | Star rx
  | Opt rx

fun star_iter :: "(string \<Rightarrow> string list) \<Rightarrow> 'a list \<Rightarrow> string \<Rightarrow> string list" where
  \<comment> \<open>the fuel is a list as long as the text: every round eats a character\<close>
  "star_iter f [] s = [s]"
| "star_iter f (x # fuel) s =
     concat (map (star_iter f fuel) (filter (\<lambda>t. length t < length s) (f s))) @ [s]"

fun one_char :: "(char \<Rightarrow> bool) \<Rightarrow> string \<Rightarrow> string list" where
  "one_char p [] = []"
| "one_char p (c # cs) = (if p c then [cs] else [])"

fun mp :: "rx \<Rightarrow> string \<Rightarrow> string list" where
  "mp (Lit n) s = one_char (\<lambda>c. of_char c = n) s"
| "mp (Str w) s = (if prefix w s then [drop (length w) s] else [])"
| "mp (OneOf ns) s = one_char (\<lambda>c. (of_char c :: nat) \<in> set ns) s"
| "mp Dot s = one_char (\<lambda>c. c \<noteq> CHR 0x0A) s"
| "mp Space s = one_char py_isspace s"
| "mp Digit s = one_char py_isdigit s"
| "mp (Seq a b) s = concat (map (mp b) (mp a s))"
| "mp (Alt a b) s = mp a s @ mp b s"
| "mp (Star a) s = star_iter (mp a) s s"
| "mp (Opt a) s = mp a s @ [s]"

definition Plus :: "rx \<Rightarrow> rx" where
  "Plus a = Seq a (Star a)"

fun Seqs :: "rx list \<Rightarrow> rx" where
  "Seqs [] = Str []"
| "Seqs [a] = a"
| "Seqs (a # b # bs) = Seq a (Seqs (b # bs))"

fun Alts :: "string list \<Rightarrow> rx" where
  \<comment> \<open>\<open>(w1|w2|...)\<close> over literal words\<close>
  "Alts [] = OneOf []"
| "Alts [w] = Str w"
| "Alts (w # v # vs) = Alt (Str w) (Alts (v # vs))"

fun re_search :: "rx \<Rightarrow> string \<Rightarrow> bool" where
  \<comment> \<open>\<open>re.search(r, s)\<close> finds a match: at some position \<open>r\<close> matches a prefix\<close>
  "re_search r [] = (mp r [] \<noteq> [])"
| "re_search r (c # cs) = (mp r (c # cs) \<noteq> [] \<or> re_search r cs)"

definition first_group :: "rx \<Rightarrow> rx \<Rightarrow> rx \<Rightarrow> string \<Rightarrow> string option" where
  \<comment> \<open>for a pattern \<open>pre(grp)post\<close> at one position: the text of the group in the
      first way the whole pattern matches there\<close>
  "first_group pre grp post s =
     (case concat (map (\<lambda>t1. map (\<lambda>t2. take (length t1 - length t2) t1)
                                  (filter (\<lambda>t2. mp post t2 \<noteq> []) (mp grp t1)))
                       (mp pre s)) of
        [] \<Rightarrow> None
      | g # _ \<Rightarrow> Some g)"

fun re_search_group :: "rx \<Rightarrow> rx \<Rightarrow> rx \<Rightarrow> string \<Rightarrow> string option" where
  \<comment> \<open>\<open>re.search(pre(grp)post, s)\<close>: \<open>group(1)\<close> of the leftmost match, if any\<close>
  "re_search_group pre grp post [] = first_group pre grp post []"
| "re_search_group pre grp post (c # cs) =
     (case first_group pre grp post (c # cs) of
        Some g \<Rightarrow> Some g
      | None \<Rightarrow> re_search_group pre grp post cs)"

section \<open>The request parser (\<open>automations/parser.py\<close>, \<open>automations/models.py\<close>)\<close>

datatype TriggerType = SCHEDULE | REALTIME | MANUAL

datatype ActionType = SEARCH_INVOICES | EXTRACT_AMOUNTS | UPDATE_TABLE | SEND_ALERT | EXPORT_CSV

record AutomationTrigger =
  trigger_type :: TriggerType
  cron :: "string option"
  frequency :: "string option"
  day_of_week :: "int option"
  hour :: int
  minute :: int

record AutomationAction =
  action_type :: ActionType
  action_vendors :: "string list option"
  action_table_id :: "string option"
  alert_threshold :: "rat option"
  params :: "(string \<times> string) list option"

record AutomationConfig =
  name :: "nat list"                   \<comment> \<open>the code points of the name\<close>
  description :: "string option"
  trigger :: AutomationTrigger
  actions :: "AutomationAction list"
  vendors :: "string list"

definition KNOWN_VENDORS :: "(string \<times> string list) list" where
  "KNOWN_VENDORS =
     [(''distram'', [''distram'', ''facturation@distram.com'']),
      (''promocash'', [''promocash'', ''no-reply@promocash.com'']),
      (''metro'', [''metro'', ''factures@metro.fr'']),
      (''transgourmet'', [''transgourmet'']),
      (''brake'', [''brake'']),
      (''davigel'', [''davigel'']),
      (''sysco'', [''sysco'']),
      (''pomona'', [''pomona'']),
      (''khadispal'', [''khadispal'']),
      (''orcun'', [''orcun''])]"

definition rx_ws1 :: rx where
  "rx_ws1 = Plus Space"

definition FREQUENCY_PATTERNS :: "(string \<times> rx list) list" where
  "FREQUENCY_PATTERNS =
     [(''daily'', [Seqs [Str ''chaque'', rx_ws1, Str ''jour''],
                   Seqs [Str ''tous'', rx_ws1, Str ''les'', rx_ws1, Str ''jours''],
                   Str ''quotidien'']),
      (''weekly'', [Seqs [Str ''chaque'', rx_ws1, Str ''semaine''],
                    Seqs [Str ''toute'', Opt (Str ''s''), rx_ws1, Str ''les'', rx_ws1,
                          Str ''semaine'', Opt (Str ''s'')],
                    Str ''hebdomadaire'']),
      (''monthly'', [Seqs [Str ''chaque'', rx_ws1, Str ''mois''],
                     Seqs [Str ''tous'', rx_ws1, Str ''les'', rx_ws1, Str ''mois''],
                     Str ''mensuel'']),
      (''monday'', [Seqs [Str ''chaque'', rx_ws1, Str ''lundi''],
                    Seqs [Str ''tous'', rx_ws1, Str ''les'', rx_ws1, Str ''lundi'', Opt (Str ''s'')]]),
      (''friday'', [Seqs [Str ''chaque'', rx_ws1, Str ''vendredi''],
                    Seqs [Str ''tous'', rx_ws1, Str ''les'', rx_ws1, Str ''vendredi'',
                          Opt (Str ''s'')]])]"

definition DAY_MAPPING :: "(string \<times> int) list" where
  "DAY_MAPPING =
     [(''lundi'', 0), (''mardi'', 1), (''mercredi'', 2), (''jeudi'', 3),
      (''vendredi'', 4), (''samedi'', 5), (''dimanche'', 6),
      (''monday'', 0), (''tuesday'', 1), (''wednesday'', 2), (''thursday'', 3),
      (''friday'', 4), (''saturday'', 5), (''sunday'', 6)]"

fun scan_aliases :: "string \<Rightarrow> string \<Rightarrow> string list \<Rightarrow> string list \<Rightarrow> string list" where
  \<comment> \<open>the inner loop of \<open>extract_vendors\<close>: the first alias found ends it\<close>
  "scan_aliases text_lower vendor_key [] found_vendors = found_vendors"
| "scan_aliases text_lower vendor_key (alias # aliases) found_vendors =
     (if py_in (py_lower alias) text_lower
      then (if vendor_key \<notin> set found_vendors then found_vendors @ [vendor_key]
            else found_vendors)
      else scan_aliases text_lower vendor_key aliases found_vendors)"

fun scan_vendors :: "string \<Rightarrow> (string \<times> string list) list \<Rightarrow> string list \<Rightarrow> string list" where
  "scan_vendors text_lower [] found_vendors = found_vendors"
| "scan_vendors text_lower ((vendor_key, aliases) # rest) found_vendors =
     scan_vendors text_lower rest (scan_aliases text_lower vendor_key aliases found_vendors)"

definition extract_vendors :: "string \<Rightarrow> string list" where
  "extract_vendors text = scan_vendors (py_lower text) KNOWN_VENDORS []"

fun scan_days :: "string \<Rightarrow> (string \<times> int) list \<Rightarrow> int option" where
  "scan_days text_lower [] = None"
| "scan_days text_lower ((day_name, day_num) # rest) =
     (if py_in day_name text_lower then Some day_num else scan_days text_lower rest)"

fun replace_from :: "string \<Rightarrow> string \<Rightarrow> nat \<Rightarrow> string \<Rightarrow> string" where
  \<comment> \<open>\<open>k\<close> counts the characters of an occurrence still to be dropped\<close>
  "replace_from old new k [] = []"
| "replace_from old new k (c # cs) =
     (if 0 < k then replace_from old new (k - 1) cs
      else if prefix old (c # cs) then new @ replace_from old new (length old - 1) cs
      else c # replace_from old new 0 cs)"

definition py_replace :: "string \<Rightarrow> string \<Rightarrow> string \<Rightarrow> string" where
  \<comment> \<open>\<open>s.replace(old, new)\<close> for a non-empty \<open>old\<close>: every occurrence, left to right\<close>
  "py_replace s old new = replace_from old new 0 s"

fun scan_patterns :: "string \<Rightarrow> string \<Rightarrow> rx list \<Rightarrow> (string \<times> int option) option" where
  "scan_patterns text_lower freq [] = None"
| "scan_patterns text_lower freq (pattern # patterns) =
     (if re_search pattern text_lower
      then (if freq \<in> set [''monday'', ''friday'']
            then Some (''weekly'',
                   Some (case map_of DAY_MAPPING
                           (py_replace (py_replace freq ''monday'' ''lundi'')
                              ''friday'' ''vendredi'') of
                         Some d \<Rightarrow> d | None \<Rightarrow> 0))
            else Some (freq, None))
      else scan_patterns text_lower freq patterns)"

fun scan_frequencies :: "string \<Rightarrow> (string \<times> rx list) list \<Rightarrow> (string \<times> int option) option" where
  "scan_frequencies text_lower [] = None"
| "scan_frequencies text_lower ((freq, patterns) # rest) =
     (case scan_patterns text_lower freq patterns of
        Some r \<Rightarrow> Some r
      | None \<Rightarrow> scan_frequencies text_lower rest)"

definition extract_frequency :: "string \<Rightarrow> string \<times> int option" where
  "extract_frequency text =
     (let text_lower = py_lower text
      in case scan_days text_lower DAY_MAPPING of
           Some day_num \<Rightarrow> (''weekly'', Some day_num)
         | None \<Rightarrow>
             (case scan_frequencies text_lower FREQUENCY_PATTERNS of
                Some r \<Rightarrow> r
              | None \<Rightarrow> (''weekly'', Some 0)))"

definition extract_hour :: "string \<Rightarrow> int" where
  \<comment> \<open>the class of the pattern holds U+221A, U+2020 and \<open>a\<close>; then
      \<open>\s*(\d{1,2})\s*h\<close>\<close>
  "extract_hour text =
     (case re_search_group (Seq (OneOf [8730, 8224, 97]) (Star Space))
             (Seq Digit (Opt Digit))
             (Seq (Star Space) (Str ''h''))
             (py_lower text) of
        Some g \<Rightarrow> py_int g
      | None \<Rightarrow>
          if py_in ''matin'' (py_lower text) then 9
          else if py_in ''soir'' (py_lower text) then 18
          else 9)"

definition rx_cree :: rx where
  \<comment> \<open>\<open>c\<close>, \<open>r\<close>, U+221A, U+00A9, \<open>e\<close>\<close>
  "rx_cree = Seqs [Str ''cr'', Lit 8730, Lit 169, Str ''e'']"

definition rx_creer :: rx where
  "rx_creer = Seq rx_cree (Str ''r'')"

definition rx_creez :: rx where
  "rx_creez = Seq rx_cree (Str ''z'')"

definition automation_patterns :: "rx list" where
  "automation_patterns =
     [Seqs [Alt rx_cree (Alt rx_creer (Alt rx_creez
              (Alts [''fais'', ''faire'', ''met'', ''mets'', ''mettre'']))),
            Star Space, Opt (Str ''en place''), Star Space,
            Opt (Alt (Seq (Str ''un'') (Opt (Str ''e''))) (Seq (Str ''l'') (OneOf [101, 97]))),
            Star Space, Str ''automatisation''],
      Str ''automatise'',
      Seqs [Str ''chaque'', rx_ws1,
            Alts [''semaine'', ''jour'', ''mois'', ''lundi'', ''mardi'', ''mercredi'', ''jeudi'',
                  ''vendredi'']],
      Seqs [Str ''tous'', rx_ws1, Str ''les'', rx_ws1,
            Alt (Str ''jours'') (Alt (Str ''semaines'') (Alt (Str ''mois'')
              (Alt (Seq (Str ''lundi'') (Opt (Str ''s''))) (Seq (Str ''mardi'') (Opt (Str ''s''))))))],
      Seqs [Str ''r'', Lit 8730, Lit 169, Str ''cup'', Lit 8730, Lit 174, Str ''re'', Star Dot,
            Str ''automatiquement''],
      Seqs [Str ''surveille'', Star Dot, Str ''et'', Star Dot, Alts [''alerte'', ''notifie'']],
      Seqs [Alts [''envoie'', ''envoi''], Star Dot, Str ''rapport'', Star Dot, Str ''chaque''],
      Seqs [Str ''met'', Star Dot, Str ''dans'', Star Dot, Str ''tableau'', Star Dot,
            Str ''chaque'']]"

definition detect_automation_intent :: "string \<Rightarrow> bool" where
  "detect_automation_intent text = list_ex (\<lambda>pattern. re_search pattern (py_lower text)) automation_patterns"

definition extract_automation_name :: "string \<Rightarrow> string list \<Rightarrow> nat list" where
  "extract_automation_name text vs =
     (if vs \<noteq> []
      then (if length vs = 1 then ustr ''Suivi factures '' @ py_title (hd vs)
            else if length vs \<le> 3 then ustr ''Suivi '' @ join_comma (map py_title vs)
            else ustr ''Suivi factures fournisseurs'')
      else ustr ''Suivi automatique'')"

definition build_cron :: "string \<Rightarrow> int option \<Rightarrow> int \<Rightarrow> string" where
  \<comment> \<open>lines 176-185 of \<open>parse_automation_request\<close>\<close>
  "build_cron freq dow_opt h =
     (if freq = ''daily'' then ''0 '' @ py_str_int h @ '' * * *''
      else if freq = ''weekly''
        then (let dow = (case dow_opt of Some d \<Rightarrow> d | None \<Rightarrow> 0)
              in ''0 '' @ py_str_int h @ '' * * '' @ py_str_int dow)
      else if freq = ''monthly'' then ''0 '' @ py_str_int h @ '' 1 * *''
      else ''0 '' @ py_str_int h @ '' * * 0'')"

definition py_float :: "string \<Rightarrow> rat" where
  \<comment> \<open>\<open>float(s)\<close> on digits with an optional \<open>.\<close> and more digits; the float is taken
      as the exact decimal\<close>
  "py_float s =
     (let ip = takeWhile (\<lambda>c. c \<noteq> CHR ''.'') s;
          fp = drop 1 (dropWhile (\<lambda>c. c \<noteq> CHR ''.'') s)
      in of_int (py_int ip) + of_int (py_int fp) / of_nat (10 ^ length fp))"

definition alert_action :: "string \<Rightarrow> AutomationAction list" where
  \<comment> \<open>lines 210-219; the threshold pattern is \<open>(\d+(?:[.,]\d+)?)\s*\<close> followed by
      U+201A, U+00C7, U+00A8\<close>
  "alert_action text =
     (if re_search (Alt (Str ''alerte'') (Alt (Str ''notifie'')
            (Seqs [Str ''pr'', Lit 8730, Lit 169, Str ''viens''])))
           (py_lower text)
      then [\<lparr>action_type = SEND_ALERT, action_vendors = None, action_table_id = None,
             alert_threshold =
               (case re_search_group (Str [])
                       (Seq (Plus Digit) (Opt (Seq (OneOf [46, 44]) (Plus Digit))))
                       (Seqs [Star Space, Lit 8218, Lit 199, Lit 168]) text of
                  Some g \<Rightarrow> Some (py_float (py_replace g '','' ''.''))
                | None \<Rightarrow> None),
             params = None\<rparr>]
      else [])"

definition parse_automation_request :: "string \<Rightarrow> AutomationConfig option" where
  "parse_automation_request text =
     (if \<not> detect_automation_intent text then None
      else
        (let vs = extract_vendors text;
             (freq, dow) = extract_frequency text;
             h = extract_hour text;
             cron_expr = build_cron freq dow h;
             trig = \<lparr>trigger_type = SCHEDULE, cron = Some cron_expr, frequency = Some freq,
                     day_of_week = dow, hour = h, minute = 0\<rparr>;
             acts =
               [\<lparr>action_type = SEARCH_INVOICES, action_vendors = Some vs,
                  action_table_id = None, alert_threshold = None, params = None\<rparr>,
                \<lparr>action_type = EXTRACT_AMOUNTS, action_vendors = None,
                  action_table_id = None, alert_threshold = None, params = None\<rparr>,
                \<lparr>action_type = UPDATE_TABLE, action_vendors = None,
                  action_table_id = None, alert_threshold = None, params = None\<rparr>]
               @ alert_action text
         in Some \<lparr>name = extract_automation_name text vs,
                   description = Some (take 200 text),
                   trigger = trig, actions = acts, vendors = vs\<rparr>))"

subsection \<open>What the specification says of vendor extraction\<close>

definition alias_hit :: "string \<Rightarrow> string list \<Rightarrow> bool" where
  \<comment> \<open>some alias of the list occurs in the lowered text\<close>
  "alias_hit text_lower aliases = list_ex (\<lambda>alias. py_in (py_lower alias) text_lower) aliases"

fun find_pos :: "string \<Rightarrow> string \<Rightarrow> nat option" where
  \<comment> \<open>\<open>s.find(sub)\<close>: where \<open>sub\<close> first occurs in \<open>s\<close>\<close>
  "find_pos sub [] = (if sub = [] then Some 0 else None)"
| "find_pos sub (c # cs) =
     (if prefix sub (c # cs) then Some 0 else map_option Suc (find_pos sub cs))"

definition strip_accent_char :: "char \<Rightarrow> char" where
  \<comment> \<open>Modelled from the spec: the accent stripping of its "normalized (lowercased,
      accent-stripped) text", which \<open>parser.py\<close> does not have; a lowered accented
      letter goes to its base letter.\<close>
  "strip_accent_char c =
     (let n = (of_char c :: nat)
      in if 224 \<le> n \<and> n \<le> 229 then CHR ''a''
         else if n = 231 then CHR ''c''
         else if 232 \<le> n \<and> n \<le> 235 then CHR ''e''
         else if 236 \<le> n \<and> n \<le> 239 then CHR ''i''
         else if n = 241 then CHR ''n''
         else if 242 \<le> n \<and> n \<le> 246 then CHR ''o''
         else if 249 \<le> n \<and> n \<le> 252 then CHR ''u''
         else if n = 253 \<or> n = 255 then CHR ''y''
         else c)"

definition normalize_text :: "string \<Rightarrow> string" where
  \<comment> \<open>Modelled from the spec: lowercased, then accent-stripped.\<close>
  "normalize_text s = map strip_accent_char (py_lower s)"

definition cfg_automatise :: AutomationConfig where
  \<comment> \<open>the configuration of the one-word request \<open>automatise\<close>\<close>
  "cfg_automatise =
     \<lparr>name = ustr ''Suivi automatique'', description = Some ''automatise'',
      trigger = \<lparr>trigger_type = SCHEDULE, cron = Some ''0 9 * * 0'',
                  frequency = Some ''weekly'', day_of_week = Some 0, hour = 9, minute = 0\<rparr>,
      actions = [\<lparr>action_type = SEARCH_INVOICES, action_vendors = Some [],
                   action_table_id = None, alert_threshold = None, params = None\<rparr>,
                 \<lparr>action_type = EXTRACT_AMOUNTS, action_vendors = None,
                   action_table_id = None, alert_threshold = None, params = None\<rparr>,
                 \<lparr>action_type = UPDATE_TABLE, action_vendors = None,
                   action_table_id = None, alert_threshold = None, params = None\<rparr>],
      vendors = []\<rparr>"

section \<open>Values, errors and object ids\<close>

text \<open>
  The values a row payload holds. A Python \<open>float\<close> is taken as the exact rational it
  stands for: the rounding of a sum of floats is outside this model, and so are the
  infinities. What is in the model is the one exception the arithmetic of the source can
  raise: an \<open>int\<close> too large for a \<open>float\<close>.
\<close>

datatype pyval =
    PNone
  | PBool bool
  | PInt int
  | PFloat rat
  | PStr string          \<comment> \<open>a text of code points below 256\<close>
  | PUStr "nat list"     \<comment> \<open>a text given by its code points\<close>

type_synonym pydict = "(string \<times> pyval) list"

datatype error =
    InvalidId string        \<comment> \<open>\<open>bson.errors.InvalidId\<close>\<close>
  | KeyError string
  | AttributeError string
  | ValueError string
  | OverflowError string
  | WriteError string       \<comment> \<open>an update the store refuses\<close>
  | Raised string           \<comment> \<open>any exception of a collaborator, with its message\<close>

fun str_error :: "error \<Rightarrow> string" where
  \<comment> \<open>\<open>str(e)\<close>; only the message of a collaborator's exception is kept verbatim\<close>
  "str_error (InvalidId s) = s"
| "str_error (KeyError s) = s"
| "str_error (AttributeError s) = s"
| "str_error (ValueError s) = s"
| "str_error (OverflowError s) = s"
| "str_error (WriteError s) = s"
| "str_error (Raised s) = s"

definition is_hex :: "char \<Rightarrow> bool" where
  "is_hex c =
     (let n = (of_char c :: nat)
      in (48 \<le> n \<and> n \<le> 57) \<or> (65 \<le> n \<and> n \<le> 70) \<or> (97 \<le> n \<and> n \<le> 102))"

definition hex_blank :: "char \<Rightarrow> bool" where
  \<comment> \<open>the blanks \<open>bytes.fromhex\<close> skips: tab, newline, vertical tab, form feed,
      carriage return, space\<close>
  "hex_blank c = (let n = (of_char c :: nat) in (9 \<le> n \<and> n \<le> 13) \<or> n = 32)"

fun fromhex :: "string \<Rightarrow> string option" where
  \<comment> \<open>\<open>bytes.fromhex(s)\<close>, the bytes written as lowercase digits: pairs of
      hexadecimal digits, with blanks allowed around a pair but not inside one\<close>
  "fromhex [] = Some []"
| "fromhex [c] = (if hex_blank c then Some [] else None)"
| "fromhex (c # c2 # cs) =
     (if hex_blank c then fromhex (c2 # cs)
      else if is_hex c \<and> is_hex c2
      then map_option (\<lambda>r. py_lower_char c # py_lower_char c2 # r) (fromhex cs)
      else None)"

definition ObjectId :: "string \<Rightarrow> error + string" where
  \<comment> \<open>\<open>ObjectId(s)\<close> of \<open>bson\<close> on a \<open>str\<close>: a string of 24 characters that
      \<open>bytes.fromhex\<close> reads gives the id, any other string raises \<open>InvalidId\<close>. The id
      is kept as the lowercase digits of its bytes, which is what \<open>str\<close> of it returns.\<close>
  "ObjectId s =
     (if length s = 24
      then (case fromhex s of Some h \<Rightarrow> Inr h | None \<Rightarrow> Inl (InvalidId s))
      else Inl (InvalidId s))"

definition oid_of :: "string \<Rightarrow> string" where
  \<comment> \<open>the id a well-formed string stands for\<close>
  "oid_of s = (case ObjectId s of Inr h \<Rightarrow> h | Inl e \<Rightarrow> [])"

fun is_number :: "pyval \<Rightarrow> bool" where
  \<comment> \<open>\<open>isinstance(v, (int, float))\<close>; \<open>bool\<close> is a subclass of \<open>int\<close>\<close>
  "is_number (PBool b) = True"
| "is_number (PInt i) = True"
| "is_number (PFloat r) = True"
| "is_number v = False"

fun num_val :: "pyval \<Rightarrow> rat" where
  "num_val (PBool b) = (if b then 1 else 0)"
| "num_val (PInt i) = of_int i"
| "num_val (PFloat r) = r"
| "num_val v = 0"

definition montant_of :: "pydict \<Rightarrow> rat" where
  \<comment> \<open>what a payload adds to the total: its \<open>montant\<close> when that is a number\<close>
  "montant_of d =
     (case map_of d ''montant'' of
        Some v \<Rightarrow> if is_number v then num_val v else 0
      | None \<Rightarrow> 0)"

definition FLOAT_LIMIT :: int where
  \<comment> \<open>the least \<open>int\<close> that has no \<open>float\<close>: it would round to \<open>2 ^ 1024\<close>\<close>
  "FLOAT_LIMIT = 2 ^ 1024 - 2 ^ 970"

definition float_of_int :: "int \<Rightarrow> error + rat" where
  \<comment> \<open>the conversion of an \<open>int\<close> that \<open>float + int\<close> makes\<close>
  "float_of_int i =
     (if FLOAT_LIMIT \<le> \<bar>i\<bar> then Inl (OverflowError ''int too large to convert to float'')
      else Inr (of_int i))"

definition montant_fits :: "pydict \<Rightarrow> bool" where
  \<comment> \<open>the \<open>montant\<close> of the payload, when it is an \<open>int\<close>, has a \<open>float\<close>\<close>
  "montant_fits d =
     (case map_of d ''montant'' of
        Some (PInt i) \<Rightarrow> \<bar>i\<bar> < FLOAT_LIMIT
      | _ \<Rightarrow> True)"

section \<open>The table store (\<open>automations/tables.py\<close>)\<close>

record TableRow =
  row_id :: string
  row_data :: pydict
  row_created_at :: int
  source_email_id :: pyval
  source_automation_id :: "string option"

record Table =
  table_user_id :: string
  table_name :: string
  table_description :: "string option"
  columns :: "(string \<times> string) list"
  rows :: "TableRow list"
  year :: int
  table_created_at :: int
  table_updated_at :: int
  table_automation_id :: "string option"
  total_amount :: rat

record Automation =
  user_id :: string
  account_id :: string
  auto_name :: string
  auto_description :: "string option"
  auto_trigger :: AutomationTrigger
  auto_actions :: "AutomationAction list"
  auto_vendors :: "string list"
  table_id :: "string option"
  status :: string
  auto_created_at :: int
  auto_updated_at :: int
  last_run :: "int option"
  next_run :: "int option"
  run_count :: int
  last_error :: "string option"

record exec_result =
  res_emails_processed :: nat
  invoices_found :: nat
  res_rows_added :: nat
  invoices :: "pydict list"

record AutomationRun =
  run_automation_id :: string
  run_user_id :: string
  started_at :: int
  completed_at :: "int option"
  run_status :: string
  results :: "exec_result option"
  emails_processed :: nat
  rows_added :: nat
  run_error :: "string option"

text \<open>
  The document store: one collection per entity, each a map from the object id (its 24
  lowercase digits) to the document. An update of one document is one step. The store is
  the abstract document store of the specification: what a driver can encode or a
  server can hold (the width of an integer, the size of a document) is outside the model.
\<close>

record db =
  tables :: "string \<rightharpoonup> Table"
  automations :: "string \<rightharpoonup> Automation"
  automation_runs :: "string \<rightharpoonup> AutomationRun"

definition opt_str :: "string option \<Rightarrow> pyval" where
  "opt_str x = (case x of None \<Rightarrow> PNone | Some s \<Rightarrow> PStr s)"

definition add_row ::
  "db \<Rightarrow> int \<Rightarrow> string \<Rightarrow> string \<Rightarrow> pydict \<Rightarrow> string option \<Rightarrow> string option
     \<Rightarrow> error + (string \<times> db)" where
  \<comment> \<open>\<open>now\<close> is the clock, \<open>new_id\<close> the fresh \<open>str(ObjectId())\<close>. The update document
      holds \<open>$inc\<close> of the \<open>montant\<close> as it is: the store refuses to increment by a
      boolean.\<close>
  "add_row d now new_id tid payload src_email src_automation =
     (let row = \<lparr>row_id = new_id, row_data = payload, row_created_at = now,
                 source_email_id = opt_str src_email,
                 source_automation_id = src_automation\<rparr>
      in case ObjectId tid of
           Inl e \<Rightarrow> Inl e
         | Inr oid \<Rightarrow>
             (case map_of payload ''montant'' of
                Some (PBool b) \<Rightarrow> Inl (WriteError ''Cannot increment with non-numeric argument'')
              | _ \<Rightarrow>
                  Inr (new_id,
                    (case tables d oid of
                       None \<Rightarrow> d
                     | Some t \<Rightarrow>
                         d\<lparr>tables := (tables d)(oid \<mapsto>
                             t\<lparr>rows := rows t @ [row],
                               table_updated_at := now,
                               total_amount := total_amount t + montant_of payload\<rparr>)\<rparr>))))"

fun bulk_rows :: "int \<Rightarrow> (nat \<Rightarrow> string) \<Rightarrow> string option \<Rightarrow> nat \<Rightarrow> pydict list \<Rightarrow> TableRow list" where
  \<comment> \<open>the rows the loop of \<open>add_rows_bulk\<close> builds; the \<open>i\<close>-th gets the fresh id
      \<open>new_id i\<close>\<close>
  "bulk_rows now new_id src_automation i [] = []"
| "bulk_rows now new_id src_automation i (payload # rest) =
     \<lparr>row_id = new_id i, row_data = payload, row_created_at = now,
      source_email_id = (case map_of payload ''email_id'' of None \<Rightarrow> PNone | Some v \<Rightarrow> v),
      source_automation_id = src_automation\<rparr>
     # bulk_rows now new_id src_automation (Suc i) rest"

definition add_montant :: "rat \<Rightarrow> pydict \<Rightarrow> error + rat" where
  \<comment> \<open>\<open>total_amount += data["montant"]\<close> under its test, on the float \<open>acc\<close>\<close>
  "add_montant acc payload =
     (case map_of payload ''montant'' of
        Some (PInt i) \<Rightarrow>
          (case float_of_int i of Inl e \<Rightarrow> Inl e | Inr x \<Rightarrow> Inr (acc + x))
      | Some (PBool b) \<Rightarrow> Inr (acc + (if b then 1 else 0))
      | Some (PFloat r) \<Rightarrow> Inr (acc + r)
      | _ \<Rightarrow> Inr acc)"

fun bulk_total :: "rat \<Rightarrow> pydict list \<Rightarrow> error + rat" where
  \<comment> \<open>the \<open>total_amount\<close> the same loop adds up, from \<open>0.0\<close>; the loop ends at the
      first amount that has no float\<close>
  "bulk_total acc [] = Inr acc"
| "bulk_total acc (payload # rest) =
     (case add_montant acc payload of
        Inl e \<Rightarrow> Inl e
      | Inr acc' \<Rightarrow> bulk_total acc' rest)"

definition add_rows_bulk ::
  "db \<Rightarrow> int \<Rightarrow> (nat \<Rightarrow> string) \<Rightarrow> string \<Rightarrow> pydict list \<Rightarrow> string option
     \<Rightarrow> error + (nat \<times> db)" where
  "add_rows_bulk d now new_id tid rows_data src_automation =
     (let rws = bulk_rows now new_id src_automation 0 rows_data
      in case bulk_total 0 rows_data of
           Inl e \<Rightarrow> Inl e
         | Inr tot \<Rightarrow>
             if rws \<noteq> []
             then (case ObjectId tid of
                     Inl e \<Rightarrow> Inl e
                   | Inr oid \<Rightarrow>
                       Inr (length rws,
                         (case tables d oid of
                            None \<Rightarrow> d
                          | Some t \<Rightarrow>
                              d\<lparr>tables := (tables d)(oid \<mapsto>
                                  t\<lparr>rows := rows t @ rws,
                                    table_updated_at := now,
                                    total_amount := total_amount t + tot\<rparr>)\<rparr>)))
             else Inr (length rws, d))"

definition check_duplicate :: "db \<Rightarrow> string \<Rightarrow> string \<Rightarrow> error + bool" where
  "check_duplicate d tid email_id =
     (case ObjectId tid of
        Inl e \<Rightarrow> Inl e
      | Inr oid \<Rightarrow>
          Inr (case tables d oid of
                 None \<Rightarrow> False
               | Some t \<Rightarrow> list_ex (\<lambda>r. source_email_id r = PStr email_id) (rows t)))"

definition delete_row :: "db \<Rightarrow> int \<Rightarrow> string \<Rightarrow> string \<Rightarrow> error + (bool \<times> db)" where
  \<comment> \<open>\<open>$pull\<close> of the rows with that id and \<open>$set\<close> of \<open>updated_at\<close>, nothing else;
      \<open>modified_count > 0\<close> says that the document changed\<close>
  "delete_row d now tid rid =
     (case ObjectId tid of
        Inl e \<Rightarrow> Inl e
      | Inr oid \<Rightarrow>
          (case tables d oid of
             None \<Rightarrow> Inr (False, d)
           | Some t \<Rightarrow>
               (let t' = t\<lparr>rows := filter (\<lambda>r. row_id r \<noteq> rid) (rows t),
                           table_updated_at := now\<rparr>
                in Inr (t' \<noteq> t, d\<lparr>tables := (tables d)(oid \<mapsto> t')\<rparr>))))"

definition rows_sum :: "Table \<Rightarrow> rat" where
  \<comment> \<open>the sum of the numeric \<open>montant\<close> over the rows of the table\<close>
  "rows_sum t = sum_list (map (\<lambda>r. montant_of (row_data r)) (rows t))"

definition total_consistent :: "Table \<Rightarrow> bool" where
  "total_consistent t = (total_amount t = rows_sum t)"

definition oid_a :: string where
  "oid_a = ''aaaaaaaaaaaaaaaaaaaaaaaa''"

definition oid_b :: string where
  "oid_b = ''bbbbbbbbbbbbbbbbbbbbbbbb''"

definition table_one_row :: Table where
  \<comment> \<open>a table with one row of amount 10 and the total 10\<close>
  "table_one_row =
     \<lparr>table_user_id = ''u'', table_name = ''Factures'', table_description = None,
      columns = [(''montant'', ''currency'')],
      rows = [\<lparr>row_id = ''r1'', row_data = [(''montant'', PInt 10)], row_created_at = 0,
               source_email_id = PNone, source_automation_id = None\<rparr>],
      year = 2025, table_created_at = 0, table_updated_at = 0,
      table_automation_id = None, total_amount = 10\<rparr>"

definition db_one_row :: db where
  "db_one_row = \<lparr>tables = [oid_a \<mapsto> table_one_row], automations = Map.empty,
                 automation_runs = Map.empty\<rparr>"

section \<open>The automation engine (\<open>automations/engine.py\<close>)\<close>

text \<open>
  The collaborators of the engine are parameters: the email gateway (\<open>EmailService\<close>),
  whose calls return a value or raise, and the query on the collection of learned
  senders, a regular-expression match on the name. Within one run a call with the same
  arguments gives the same answer.
\<close>

record email =
  email_id :: string                \<comment> \<open>\<open>email["id"]\<close>\<close>
  email_date :: "string option"     \<comment> \<open>\<open>email.get("date")\<close>, \<open>None\<close> when the key is absent\<close>

record attachment =
  filename :: "string option"       \<comment> \<open>\<open>None\<close> when the key is absent\<close>
  mimeType :: "string option"
  attachmentId :: "string option"

record invoice_data =
  inv_total :: "rat option"
    \<comment> \<open>\<open>invoice_data.get("total")\<close>: nothing, or the dictionary of the total, which
        \<open>email_service.py\<close> builds with its \<open>value\<close>, a float\<close>
  invoice_number :: "pyval option"  \<comment> \<open>\<open>None\<close> when the key is absent\<close>

record gateway =
  search_emails :: "string \<Rightarrow> string \<Rightarrow> error + email list"
  get_email_by_id :: "string \<Rightarrow> string \<Rightarrow> error + attachment list"
    \<comment> \<open>the attachments of the full message, \<open>full_email.get("attachments", [])\<close>\<close>
  extract_invoice_data :: "string \<Rightarrow> string \<Rightarrow> string option \<Rightarrow> error + invoice_data"
  find_learned_sender :: "string \<Rightarrow> string \<Rightarrow> error + string list option option"
    \<comment> \<open>\<open>db.learned_senders.find_one\<close> for a user and a vendor: no document, or the
        document's \<open>emails\<close> when it has the key\<close>
  strftime :: "int \<Rightarrow> string"
    \<comment> \<open>\<open>strftime('%Y/%m/%d')\<close> of a time\<close>

definition default_mappings :: "(string \<times> string list) list" where
  "default_mappings =
     [(''distram'', [''facturation@distram.com'']),
      (''promocash'', [''no-reply@promocash.com'']),
      (''metro'', [''factures@metro.fr'']),
      (''khadispal'', [''khadispal'']),
      (''orcun'', [''orcun''])]"

definition get_vendor_emails :: "gateway \<Rightarrow> string \<Rightarrow> string \<Rightarrow> error + string list" where
  \<comment> \<open>\<open>_get_vendor_emails\<close>\<close>
  "get_vendor_emails gw uid vendor =
     (case find_learned_sender gw uid vendor of
        Inl e \<Rightarrow> Inl e
      | Inr (Some sender) \<Rightarrow> Inr (case sender of Some es \<Rightarrow> es | None \<Rightarrow> [vendor])
      | Inr None \<Rightarrow>
          Inr (case map_of default_mappings (py_lower vendor) of
                 Some es \<Rightarrow> es
               | None \<Rightarrow> [vendor]))"

definition invoice_row :: "string \<Rightarrow> email \<Rightarrow> invoice_data \<Rightarrow> rat \<Rightarrow> pydict" where
  \<comment> \<open>the dictionary appended to \<open>all_invoices\<close>\<close>
  "invoice_row vendor em idata v =
     [(''date'', PStr (case email_date em of Some s \<Rightarrow> s | None \<Rightarrow> [])),
      (''fournisseur'', PUStr (py_title vendor)),
      (''montant'', PFloat v),
      (''n_facture'', (case invoice_number idata of Some n \<Rightarrow> n | None \<Rightarrow> PStr [])),
      (''email_id'', PStr (email_id em)),
      (''payee'', PBool False)]"

fun scan_attachments ::
  "gateway \<Rightarrow> string \<Rightarrow> string \<Rightarrow> email \<Rightarrow> attachment list \<Rightarrow> error + pydict option" where
  \<comment> \<open>the loop over the attachments of one message: the row of its first invoice, if
      any; an exception leaves the loop\<close>
  "scan_attachments gw acct vendor em [] = Inr None"
| "scan_attachments gw acct vendor em (att # atts) =
     (let fname = py_lower (case filename att of Some f \<Rightarrow> f | None \<Rightarrow> [])
      in if py_in ''cgv'' fname \<or> py_in ''condition'' fname
         then scan_attachments gw acct vendor em atts
         else if mimeType att = Some ''application/pdf'' \<or> suffix ''.pdf'' fname
         then (case extract_invoice_data gw acct (email_id em) (attachmentId att) of
                 Inl e \<Rightarrow> Inl e
               | Inr idata \<Rightarrow>
                   (case inv_total idata of
                      None \<Rightarrow> scan_attachments gw acct vendor em atts
                    | Some v \<Rightarrow> Inr (Some (invoice_row vendor em idata v))))
         else scan_attachments gw acct vendor em atts)"

definition table_of :: "Automation \<Rightarrow> string option" where
  \<comment> \<open>the table id when \<open>if table_id:\<close> holds: present and not empty\<close>
  "table_of a = (case table_id a of Some t \<Rightarrow> if t = [] then None else Some t | None \<Rightarrow> None)"

fun process_emails ::
  "db \<Rightarrow> gateway \<Rightarrow> Automation \<Rightarrow> string \<Rightarrow> email list \<Rightarrow> pydict list \<times> nat
     \<Rightarrow> error option \<times> pydict list \<times> nat" where
  \<comment> \<open>the loop over the messages of one search, on the pair of \<open>all_invoices\<close> and
      \<open>emails_processed\<close>. An exception of the duplicate check leaves the loop (it is
      caught around the search); one of the fetch or of the extraction is caught around
      the message, and the loop goes on.\<close>
  "process_emails d gw a vendor [] st = (None, st)"
| "process_emails d gw a vendor (em # ems) (all_invoices, n) =
     (case (case table_of a of
              Some tid \<Rightarrow> check_duplicate d tid (email_id em)
            | None \<Rightarrow> Inr False) of
        Inl e \<Rightarrow> (Some e, all_invoices, Suc n)
      | Inr True \<Rightarrow> process_emails d gw a vendor ems (all_invoices, Suc n)
      | Inr False \<Rightarrow>
          (case get_email_by_id gw (account_id a) (email_id em) of
             Inl e \<Rightarrow> process_emails d gw a vendor ems (all_invoices, Suc n)
           | Inr atts \<Rightarrow>
               (case scan_attachments gw (account_id a) vendor em atts of
                  Inl e \<Rightarrow> process_emails d gw a vendor ems (all_invoices, Suc n)
                | Inr None \<Rightarrow> process_emails d gw a vendor ems (all_invoices, Suc n)
                | Inr (Some row) \<Rightarrow>
                    process_emails d gw a vendor ems (all_invoices @ [row], Suc n))))"

definition search_query :: "gateway \<Rightarrow> int \<Rightarrow> string \<Rightarrow> string" where
  \<comment> \<open>the query of one address, seven days back from \<open>now\<close> (in seconds)\<close>
  "search_query gw now vendor_email =
     ''after:'' @ strftime gw (now - 7 * 86400) @ '' from:'' @ vendor_email @ '' subject:facture''"

definition search_one ::
  "db \<Rightarrow> gateway \<Rightarrow> int \<Rightarrow> Automation \<Rightarrow> string \<Rightarrow> pydict list \<times> nat \<Rightarrow> string
     \<Rightarrow> pydict list \<times> nat" where
  \<comment> \<open>the body of the loop over the addresses of a vendor: a search that raises, or a
      loop over its messages that an exception leaves, is logged and the state stays as
      it is at that point\<close>
  "search_one d gw now a vendor st vendor_email =
     (case search_emails gw (account_id a) (search_query gw now vendor_email) of
        Inl e \<Rightarrow> st
      | Inr emails \<Rightarrow> snd (process_emails d gw a vendor emails st))"

fun search_vendors ::
  "db \<Rightarrow> gateway \<Rightarrow> int \<Rightarrow> Automation \<Rightarrow> string list \<Rightarrow> pydict list \<times> nat
     \<Rightarrow> error + pydict list \<times> nat" where
  \<comment> \<open>the loop over the vendors; resolving the addresses of a vendor is outside every
      \<open>try\<close>, so its exception ends the pipeline\<close>
  "search_vendors d gw now a [] st = Inr st"
| "search_vendors d gw now a (vendor # rest) st =
     (case get_vendor_emails gw (user_id a) vendor of
        Inl e \<Rightarrow> Inl e
      | Inr vendor_emails \<Rightarrow>
          search_vendors d gw now a rest
            (foldl (search_one d gw now a vendor) st vendor_emails))"

definition execute_actions ::
  "db \<Rightarrow> gateway \<Rightarrow> int \<Rightarrow> (nat \<Rightarrow> string) \<Rightarrow> string \<Rightarrow> Automation
     \<Rightarrow> error + (exec_result \<times> db)" where
  \<comment> \<open>\<open>_execute_actions\<close>, on the document found under the id \<open>oid\<close>\<close>
  "execute_actions d gw now new_id oid a =
     (case search_vendors d gw now a (auto_vendors a) ([], 0) of
        Inl e \<Rightarrow> Inl e
      | Inr (all_invoices, n) \<Rightarrow>
          (case (case table_of a of
                   Some tid \<Rightarrow>
                     if all_invoices \<noteq> []
                     then add_rows_bulk d now new_id tid all_invoices (Some oid)
                     else Inr (0, d)
                 | None \<Rightarrow> Inr (0, d)) of
             Inl e \<Rightarrow> Inl e
           | Inr (added, d') \<Rightarrow>
               Inr (\<lparr>res_emails_processed = n, invoices_found = length all_invoices,
                     res_rows_added = added, invoices = all_invoices\<rparr>, d')))"

datatype run_result =
    RunFailure string               \<comment> \<open>\<open>{"success": False, "error": msg}\<close>\<close>
  | RunSuccess string exec_result   \<comment> \<open>\<open>{"success": True, "run_id": id, **result}\<close>\<close>

definition run_automation ::
  "db \<Rightarrow> gateway \<Rightarrow> int \<Rightarrow> string \<Rightarrow> (nat \<Rightarrow> string) \<Rightarrow> string \<Rightarrow> error + (run_result \<times> db)" where
  \<comment> \<open>\<open>run_id\<close> is the id the store gives the new run document, \<open>new_id\<close> the ids of
      the new rows\<close>
  "run_automation d gw now run_id new_id automation_id =
     (case ObjectId automation_id of
        Inl e \<Rightarrow> Inl e
      | Inr oid \<Rightarrow>
          (case automations d oid of
             None \<Rightarrow> Inr (RunFailure ''Automation not found'', d)
           | Some a \<Rightarrow>
               (let run_doc = \<lparr>run_automation_id = automation_id, run_user_id = user_id a,
                               started_at = now, completed_at = None,
                               run_status = ''running'', results = None,
                               emails_processed = 0, rows_added = 0, run_error = None\<rparr>;
                    d1 = d\<lparr>automation_runs := (automation_runs d)(run_id \<mapsto> run_doc)\<rparr>
                in case execute_actions d1 gw now new_id oid a of
                     Inr (result, d2) \<Rightarrow>
                       Inr (RunSuccess run_id result,
                         d2\<lparr>automation_runs := (automation_runs d2)(run_id \<mapsto>
                               run_doc\<lparr>completed_at := Some now, run_status := ''success'',
                                 results := Some result,
                                 emails_processed := res_emails_processed result,
                                 rows_added := res_rows_added result\<rparr>),
                            automations := (automations d2)(oid \<mapsto>
                               a\<lparr>last_run := Some now, last_error := None,
                                 run_count := run_count a + 1\<rparr>)\<rparr>)
                   | Inl e \<Rightarrow>
                       Inr (RunFailure (str_error e),
                         d1\<lparr>automation_runs := (automation_runs d1)(run_id \<mapsto>
                               run_doc\<lparr>completed_at := Some now, run_status := ''error'',
                                 run_error := Some (str_error e)\<rparr>),
                            automations := (automations d1)(oid \<mapsto>
                               a\<lparr>last_run := Some now, last_error := Some (str_error e)\<rparr>)\<rparr>))))"

subsection \<open>Concrete stores and gateways\<close>

definition ids0 :: "nat \<Rightarrow> string" where
  \<comment> \<open>a supply of row ids\<close>
  "ids0 i = ''row'' @ str_nat i"

definition gw_quiet :: gateway where
  \<comment> \<open>a gateway that finds nothing\<close>
  "gw_quiet =
     \<lparr>search_emails = (\<lambda>acct q. Inr []),
      get_email_by_id = (\<lambda>acct i. Inr []),
      extract_invoice_data = (\<lambda>acct i att. Inr \<lparr>inv_total = None, invoice_number = None\<rparr>),
      find_learned_sender = (\<lambda>uid vendor. Inr None),
      strftime = (\<lambda>t. ''2025/01/01'')\<rparr>"

definition gw_no_senders :: gateway where
  \<comment> \<open>a gateway whose query on the learned senders raises\<close>
  "gw_no_senders = gw_quiet\<lparr>find_learned_sender := (\<lambda>uid vendor. Inl (Raised ''store unreachable''))\<rparr>"

definition trigger_monday :: AutomationTrigger where
  "trigger_monday =
     \<lparr>trigger_type = SCHEDULE, cron = Some ''0 9 * * 0'', frequency = Some ''weekly'',
      day_of_week = Some 0, hour = 9, minute = 0\<rparr>"

definition automation_a :: Automation where
  \<comment> \<open>an active automation on the vendors \<open>khadispal\<close> and \<open>orcun\<close>, with the table
      \<open>oid_b\<close>\<close>
  "automation_a =
     \<lparr>user_id = ''u'', account_id = ''acct'', auto_name = ''Suivi Khadispal, Orcun'',
      auto_description = None, auto_trigger = trigger_monday, auto_actions = [],
      auto_vendors = [''khadispal'', ''orcun''], table_id = Some oid_b,
      status = ''active'', auto_created_at = 0, auto_updated_at = 0, last_run = None,
      next_run = None, run_count = 0, last_error = None\<rparr>"

definition table_empty :: Table where
  "table_empty =
     \<lparr>table_user_id = ''u'', table_name = ''Factures'', table_description = None,
      columns = [(''montant'', ''currency'')], rows = [],
      year = 2025, table_created_at = 0, table_updated_at = 0,
      table_automation_id = None, total_amount = 0\<rparr>"

definition db_a :: db where
  \<comment> \<open>the automation \<open>automation_a\<close> under \<open>oid_a\<close>, its empty table under \<open>oid_b\<close>, no run\<close>
  "db_a = \<lparr>tables = [oid_b \<mapsto> table_empty], automations = [oid_a \<mapsto> automation_a],
           automation_runs = Map.empty\<rparr>"

subsection \<open>What one run sees and what it adds\<close>

definition email_row :: "db \<Rightarrow> gateway \<Rightarrow> Automation \<Rightarrow> string \<Rightarrow> email \<Rightarrow> error + pydict option" where
  \<comment> \<open>what one message adds to \<open>all_invoices\<close>: nothing when it is a duplicate, when
      its fetch or extraction raises or when it holds no invoice; the error is that of
      the duplicate check\<close>
  "email_row d gw a vendor em =
     (case (case table_of a of
              Some tid \<Rightarrow> check_duplicate d tid (email_id em)
            | None \<Rightarrow> Inr False) of
        Inl e \<Rightarrow> Inl e
      | Inr True \<Rightarrow> Inr None
      | Inr False \<Rightarrow>
          (case get_email_by_id gw (account_id a) (email_id em) of
             Inl e \<Rightarrow> Inr None
           | Inr atts \<Rightarrow>
               (case scan_attachments gw (account_id a) vendor em atts of
                  Inl e \<Rightarrow> Inr None
                | Inr r \<Rightarrow> Inr r)))"

definition vendor_rows :: "db \<Rightarrow> gateway \<Rightarrow> Automation \<Rightarrow> string \<Rightarrow> email list \<Rightarrow> pydict list" where
  \<comment> \<open>the rows the messages of one search contribute\<close>
  "vendor_rows d gw a vendor ems = fst (snd (process_emails d gw a vendor ems ([], 0)))"

definition address_messages :: "gateway \<Rightarrow> int \<Rightarrow> Automation \<Rightarrow> string \<Rightarrow> string list" where
  \<comment> \<open>the ids of the messages the search of one address returns (none when it raises)\<close>
  "address_messages gw now a vendor_email =
     (case search_emails gw (account_id a) (search_query gw now vendor_email) of
        Inl e \<Rightarrow> []
      | Inr ems \<Rightarrow> map email_id ems)"

definition vendor_messages :: "gateway \<Rightarrow> int \<Rightarrow> Automation \<Rightarrow> string \<Rightarrow> string list" where
  "vendor_messages gw now a vendor =
     (case get_vendor_emails gw (user_id a) vendor of
        Inl e \<Rightarrow> []
      | Inr es \<Rightarrow> concat (map (address_messages gw now a) es))"

definition run_messages :: "gateway \<Rightarrow> int \<Rightarrow> Automation \<Rightarrow> string list" where
  \<comment> \<open>the ids of all the messages the searches of one run return, in the order of the
      searches\<close>
  "run_messages gw now a = concat (map (vendor_messages gw now a) (auto_vendors a))"

definition invoice_email_id :: "pydict \<Rightarrow> pyval" where
  \<comment> \<open>\<open>data.get("email_id")\<close>\<close>
  "invoice_email_id r = (case map_of r ''email_id'' of None \<Rightarrow> PNone | Some v \<Rightarrow> v)"

definition table_source_ids :: "Table \<Rightarrow> pyval list" where
  \<comment> \<open>the source message ids of the rows that have one\<close>
  "table_source_ids t = filter (\<lambda>v. v \<noteq> PNone) (map source_email_id (rows t))"

definition table_ok :: "Automation \<Rightarrow> bool" where
  \<comment> \<open>the automation has no table, or its table id is a well-formed object id (as the
      id \<open>create_automation\<close> stores is)\<close>
  "table_ok a =
     (case table_of a of
        None \<Rightarrow> True
      | Some tid \<Rightarrow> (case ObjectId tid of Inr h \<Rightarrow> True | Inl e \<Rightarrow> False))"

definition address_rows :: "db \<Rightarrow> gateway \<Rightarrow> int \<Rightarrow> Automation \<Rightarrow> string \<Rightarrow> string \<Rightarrow> pydict list" where
  \<comment> \<open>the rows the search of one address contributes (none when it raises)\<close>
  "address_rows d gw now a vendor vendor_email =
     (case search_emails gw (account_id a) (search_query gw now vendor_email) of
        Inl e \<Rightarrow> []
      | Inr ems \<Rightarrow> vendor_rows d gw a vendor ems)"

definition vendor_all_rows :: "db \<Rightarrow> gateway \<Rightarrow> int \<Rightarrow> Automation \<Rightarrow> string \<Rightarrow> pydict list" where
  "vendor_all_rows d gw now a vendor =
     (case get_vendor_emails gw (user_id a) vendor of
        Inl e \<Rightarrow> []
      | Inr es \<Rightarrow> concat (map (address_rows d gw now a vendor) es))"

definition run_rows :: "db \<Rightarrow> gateway \<Rightarrow> int \<Rightarrow> Automation \<Rightarrow> pydict list" where
  \<comment> \<open>the rows of all the vendors of the automation, in the order of the searches\<close>
  "run_rows d gw now a = concat (map (vendor_all_rows d gw now a) (auto_vendors a))"

definition pdf_attachment :: attachment where
  "pdf_attachment = \<lparr>filename = Some ''Facture.PDF'', mimeType = Some ''application/pdf'',
                      attachmentId = Some ''att1''\<rparr>"

definition invoice_ten :: invoice_data where
  "invoice_ten = \<lparr>inv_total = Some 10, invoice_number = Some (PStr ''F-1'')\<rparr>"

definition msg :: "string \<Rightarrow> email" where
  "msg i = \<lparr>email_id = i, email_date = Some ''Mon, 6 Jan 2025''\<rparr>"

definition gw_three :: gateway where
  \<comment> \<open>the search of the address of \<open>promocash\<close> raises; that of \<open>distram\<close> returns the
      message \<open>m1\<close>, any other the messages \<open>m2\<close> and \<open>m3\<close>; every message holds one
      invoice of 10\<close>
  "gw_three =
     \<lparr>search_emails = (\<lambda>acct q.
          if py_in ''promocash'' q then Inl (Raised ''timeout'')
          else if py_in ''distram'' q then Inr [msg ''m1'']
          else Inr [msg ''m2'', msg ''m3'']),
      get_email_by_id = (\<lambda>acct i. Inr [pdf_attachment]),
      extract_invoice_data = (\<lambda>acct i att. Inr invoice_ten),
      find_learned_sender = (\<lambda>uid vendor. Inr None),
      strftime = (\<lambda>t. ''2025/01/01'')\<rparr>"

definition automation_three :: Automation where
  "automation_three = automation_a\<lparr>auto_vendors := [''distram'', ''promocash'', ''metro'']\<rparr>"

definition db_three :: db where
  "db_three = \<lparr>tables = [oid_b \<mapsto> table_empty], automations = [oid_a \<mapsto> automation_three],
               automation_runs = Map.empty\<rparr>"

definition store_after ::
  "db \<Rightarrow> gateway \<Rightarrow> int \<Rightarrow> string \<Rightarrow> (nat \<Rightarrow> string) \<Rightarrow> string \<Rightarrow> db" where
  \<comment> \<open>the store after a call of \<open>run_automation\<close>; a call that raises has written
      nothing\<close>
  "store_after d gw now run_id new_id automation_id =
     (case run_automation d gw now run_id new_id automation_id of
        Inr (r, d') \<Rightarrow> d'
      | Inl e \<Rightarrow> d)"

definition source_ids_of :: "db \<Rightarrow> string \<Rightarrow> pyval list" where
  \<comment> \<open>the source message ids of the rows of a table of the store, row by row\<close>
  "source_ids_of d oid = (case tables d oid of Some t \<Rightarrow> map source_email_id (rows t) | None \<Rightarrow> [])"

definition gw_same :: gateway where
  \<comment> \<open>every search returns the one message \<open>m1\<close>, which holds an invoice of 10: a
      message whose sender matches the search of two vendors\<close>
  "gw_same = gw_three\<lparr>search_emails := (\<lambda>acct q. Inr [msg ''m1''])\<rparr>"

section \<open>The scheduler (\<open>automations/scheduler.py\<close>)\<close>

fun split_ws :: "string \<Rightarrow> string \<Rightarrow> string list" where
  \<comment> \<open>\<open>cur\<close> is the word being read\<close>
  "split_ws cur [] = (if cur = [] then [] else [cur])"
| "split_ws cur (c # cs) =
     (if py_isspace c then (if cur = [] then split_ws [] cs else cur # split_ws [] cs)
      else split_ws (cur @ [c]) cs)"

definition py_split :: "string \<Rightarrow> string list" where
  \<comment> \<open>\<open>s.split()\<close>: the words between runs of whitespace\<close>
  "py_split s = split_ws [] s"

fun split_on :: "char \<Rightarrow> string \<Rightarrow> string \<Rightarrow> string list" where
  \<comment> \<open>\<open>s.split(c)\<close>, with the piece being read\<close>
  "split_on sep cur [] = [cur]"
| "split_on sep cur (c # cs) =
     (if c = sep then cur # split_on sep [] cs else split_on sep (cur @ [c]) cs)"

text \<open>
  The trigger of the scheduling library (\<open>apscheduler.triggers.cron.CronTrigger\<close>, 3.x)
  is not code of this repository. Its constructor reads each field as a comma-separated
  list of expressions and raises \<open>ValueError\<close> when one is not recognised or lies
  outside the range of the field. The model below has the numeric forms \<open>*\<close>, \<open>*/n\<close>,
  \<open>a\<close>, \<open>a-b\<close>, \<open>a/n\<close>, \<open>a-b/n\<close> with the library's range checks, the month and
  weekday names, and \<open>last\<close> for the day.
\<close>

datatype cron_field = Minute | Hour | Day | Month | DayOfWeek

fun field_min :: "cron_field \<Rightarrow> int" where
  "field_min Minute = 0"
| "field_min Hour = 0"
| "field_min Day = 1"
| "field_min Month = 1"
| "field_min DayOfWeek = 0"

fun field_max :: "cron_field \<Rightarrow> int" where
  "field_max Minute = 59"
| "field_max Hour = 23"
| "field_max Day = 31"
| "field_max Month = 12"
| "field_max DayOfWeek = 6"

definition all_digits :: "string \<Rightarrow> bool" where
  "all_digits s = (s \<noteq> [] \<and> list_all py_isdigit s)"

definition numeric_expr_ok :: "int \<Rightarrow> int \<Rightarrow> string \<Rightarrow> bool" where
  \<comment> \<open>an expression \<open>*[/step]\<close> or \<open>first[-last][/step]\<close> that the library accepts for
      a field of the range \<open>lo..hi\<close>\<close>
  "numeric_expr_ok lo hi e =
     (let body = takeWhile (\<lambda>c. c \<noteq> CHR ''/'') e;
          rest = dropWhile (\<lambda>c. c \<noteq> CHR ''/'') e;
          step = (if rest = [] then None else Some (py_int (tl rest)))
      in (rest = [] \<or> (all_digits (tl rest) \<and> py_int (tl rest) \<noteq> 0)) \<and>
         (if body = ''*''
          then (case step of None \<Rightarrow> True | Some s \<Rightarrow> s \<le> hi - lo)
          else
            (let first = takeWhile (\<lambda>c. c \<noteq> CHR ''-'') body;
                 rest2 = dropWhile (\<lambda>c. c \<noteq> CHR ''-'') body;
                 f = py_int first;
                 last = (if rest2 = [] then (if step = None then Some f else None)
                         else Some (py_int (tl rest2)))
             in all_digits first \<and> (rest2 = [] \<or> all_digits (tl rest2)) \<and>
                (case last of None \<Rightarrow> True | Some l \<Rightarrow> f \<le> l) \<and>
                lo \<le> f \<and>
                (case last of None \<Rightarrow> True | Some l \<Rightarrow> l \<le> hi) \<and>
                (case step of
                   None \<Rightarrow> True
                 | Some s \<Rightarrow> s \<le> (case last of None \<Rightarrow> hi
                                    | Some l \<Rightarrow> if l = 0 then hi else l) - f))))"

definition is_ascii_letter :: "char \<Rightarrow> bool" where
  "is_ascii_letter c =
     (let n = (of_char c :: nat) in (65 \<le> n \<and> n \<le> 90) \<or> (97 \<le> n \<and> n \<le> 122))"

definition MONTHS :: "string list" where
  "MONTHS = [''jan'', ''feb'', ''mar'', ''apr'', ''may'', ''jun'', ''jul'', ''aug'', ''sep'',
             ''oct'', ''nov'', ''dec'']"

definition WEEKDAYS :: "string list" where
  "WEEKDAYS = [''mon'', ''tue'', ''wed'', ''thu'', ''fri'', ''sat'', ''sun'']"

fun index_of :: "string \<Rightarrow> string list \<Rightarrow> nat option" where
  "index_of x [] = None"
| "index_of x (y # ys) = (if x = y then Some 0 else map_option Suc (index_of x ys))"

definition name_expr_ok :: "string list \<Rightarrow> string \<Rightarrow> bool" where
  \<comment> \<open>an expression \<open>name[-name]\<close> over the given names, in any case\<close>
  "name_expr_ok names e =
     (let first = takeWhile is_ascii_letter e;
          rest = dropWhile is_ascii_letter e;
          last = (case rest of
                    c # r \<Rightarrow> if c = CHR ''-'' then takeWhile is_ascii_letter r else []
                  | [] \<Rightarrow> [])
      in case index_of (py_lower first) names of
           None \<Rightarrow> False
         | Some i \<Rightarrow>
             (last = [] \<or>
              (case index_of (py_lower last) names of None \<Rightarrow> False | Some j \<Rightarrow> i \<le> j)))"

definition expr_ok :: "cron_field \<Rightarrow> string \<Rightarrow> bool" where
  "expr_ok fld e =
     (numeric_expr_ok (field_min fld) (field_max fld) e
      \<or> (fld = Month \<and> name_expr_ok MONTHS e)
      \<or> (fld = DayOfWeek \<and> name_expr_ok WEEKDAYS e)
      \<or> (fld = Day \<and> prefix ''last'' (py_lower e)))"

definition field_ok :: "cron_field \<Rightarrow> string \<Rightarrow> bool" where
  "field_ok fld s = list_all (expr_ok fld) (split_on (CHR '','') [] s)"

record cron_trigger =
  ct_year :: string
  ct_month :: string
  ct_day :: string
  ct_week :: string
  ct_day_of_week :: string
  ct_hour :: string
  ct_minute :: string
  ct_second :: string

definition CronTrigger_fields ::
  "string \<Rightarrow> string \<Rightarrow> string \<Rightarrow> string \<Rightarrow> string \<Rightarrow> error + cron_trigger" where
  \<comment> \<open>\<open>CronTrigger(minute=m, hour=h, day=dd, month=mo, day_of_week=dow)\<close>: the fields
      above the least significant given one are \<open>*\<close>, the seconds are 0\<close>
  "CronTrigger_fields m h dd mo dow =
     (if field_ok Minute m \<and> field_ok Hour h \<and> field_ok Day dd \<and> field_ok Month mo
         \<and> field_ok DayOfWeek dow
      then Inr \<lparr>ct_year = ''*'', ct_month = mo, ct_day = dd, ct_week = ''*'',
                ct_day_of_week = dow, ct_hour = h, ct_minute = m, ct_second = ''0''\<rparr>
      else Inl (ValueError ''Unrecognized expression''))"

definition default_trigger :: cron_trigger where
  \<comment> \<open>\<open>CronTrigger(hour=9, day_of_week=0)\<close>: Monday at 9:00:00; the library counts the
      weekdays from Monday\<close>
  "default_trigger =
     \<lparr>ct_year = ''*'', ct_month = ''*'', ct_day = ''*'', ct_week = ''*'',
      ct_day_of_week = ''0'', ct_hour = ''9'', ct_minute = ''0'', ct_second = ''0''\<rparr>"

record job =
  job_args :: "string list"
  job_name :: string
  job_trigger :: cron_trigger

record AutomationScheduler =
  scheduler :: "(string \<rightharpoonup> job) option"   \<comment> \<open>the jobs by id, once \<open>start\<close> made the scheduler\<close>
  started :: bool

definition schedule_automation ::
  "AutomationScheduler \<Rightarrow> db \<Rightarrow> (cron_trigger \<Rightarrow> int \<Rightarrow> int option) \<Rightarrow> int \<Rightarrow> string \<Rightarrow> Automation
     \<Rightarrow> bool \<times> AutomationScheduler \<times> db" where
  \<comment> \<open>on the document \<open>a\<close> with the id \<open>oid\<close>; \<open>next_fire\<close> is the library's
      \<open>get_next_fire_time\<close>. The stored trigger always has the key \<open>cron\<close>, so the
      default of \<open>.get\<close> is never taken; a null \<open>cron\<close> has no \<open>split\<close>. Every
      exception after the first test is caught and gives \<open>False\<close>, with what was done
      before it left in place.\<close>
  "schedule_automation sch d next_fire now oid a =
     (case scheduler sch of
        None \<Rightarrow> (False, sch, d)
      | Some jobs \<Rightarrow>
          (case cron (auto_trigger a) of
             None \<Rightarrow> (False, sch, d)
           | Some cron_expr \<Rightarrow>
               (let parts = py_split cron_expr
                in case (if 5 \<le> length parts
                         then CronTrigger_fields (parts ! 0) (parts ! 1) (parts ! 2) (parts ! 3)
                                (parts ! 4)
                         else Inr default_trigger) of
                     Inl e \<Rightarrow> (False, sch, d)
                   | Inr trig \<Rightarrow>
                       (let jobs1 = (if jobs oid \<noteq> None then jobs(oid := None) else jobs);
                            jobs2 = jobs1(oid \<mapsto>
                                      \<lparr>job_args = [oid], job_name = auto_name a,
                                       job_trigger = trig\<rparr>);
                            sch' = sch\<lparr>scheduler := Some jobs2\<rparr>
                        in case ObjectId oid of
                             Inl e \<Rightarrow> (False, sch', d)
                           | Inr k \<Rightarrow>
                               (True, sch',
                                (case automations d k of
                                   None \<Rightarrow> d
                                 | Some x \<Rightarrow>
                                     d\<lparr>automations := (automations d)(k \<mapsto>
                                         x\<lparr>next_run := next_fire trig now\<rparr>)\<rparr>))))))"

definition next_hour :: "cron_trigger \<Rightarrow> int \<Rightarrow> int option" where
  \<comment> \<open>a stand-in for the library's next fire time\<close>
  "next_hour trig now = Some (now + 3600)"

definition sched_started :: AutomationScheduler where
  "sched_started = \<lparr>scheduler = Some Map.empty, started = True\<rparr>"

definition automation_25h :: Automation where
  \<comment> \<open>an automation whose stored expression asks for the hour 25, as the parser
      derives it from a request for \<open>25h\<close>\<close>
  "automation_25h = automation_a\<lparr>auto_trigger := trigger_monday\<lparr>cron := Some ''0 25 * * 0'', hour := 25\<rparr>\<rparr>"

definition automation_short :: Automation where
  \<comment> \<open>an automation whose stored expression has four fields\<close>
  "automation_short = automation_a\<lparr>auto_trigger := trigger_monday\<lparr>cron := Some ''0 9 * *''\<rparr>\<rparr>"

definition db_25h :: db where
  \<comment> \<open>the store that holds \<open>automation_25h\<close> under \<open>oid_a\<close>\<close>
  "db_25h = db_a\<lparr>automations := [oid_a \<mapsto> automation_25h]\<rparr>"

section \<open>The request parser: properties\<close>

subsection \<open>Vendor extraction\<close>

lemma scan_aliases_eq:
  "scan_aliases tlow k als found =
     (if alias_hit tlow als \<and> k \<notin> set found then found @ [k] else found)"
  by (induction als) (auto simp: alias_hit_def)

lemma scan_vendors_eq:
  "distinct (map fst tbl) \<Longrightarrow> set (map fst tbl) \<inter> set found = {} \<Longrightarrow>
   scan_vendors tlow tbl found = found @ map fst (filter (\<lambda>(k, als). alias_hit tlow als) tbl)"
proof (induction tbl arbitrary: found)
  case Nil
  then show ?case by simp
next
  case (Cons p tbl)
  obtain k als where p: "p = (k, als)" by (cases p)
  from Cons.prems p have kf: "k \<notin> set found" and kt: "k \<notin> fst ` set tbl"
    and d: "distinct (map fst tbl)" and disj: "set (map fst tbl) \<inter> set found = {}"
    by auto
  let ?f' = "scan_aliases tlow k als found"
  have f': "?f' = (if alias_hit tlow als then found @ [k] else found)"
    using kf by (simp add: scan_aliases_eq)
  have "set (map fst tbl) \<inter> set ?f' = {}"
    using disj kt by (auto simp: f')
  from Cons.IH[OF d this] show ?case
    by (simp add: p f')
qed

lemma KNOWN_VENDORS_distinct: "distinct (map fst KNOWN_VENDORS)"
  by (simp add: KNOWN_VENDORS_def)

text \<open>
  C9, as the code has it. \<open>extract_vendors\<close> lowers the text, strips no accent, and
  walks the alias table: a vendor key is returned exactly when one of its aliases
  (lowered) occurs in the lowered text, the keys come in the order of the table
  \<open>KNOWN_VENDORS\<close>, and none comes twice.
\<close>

theorem extract_vendors_table_order:
  "extract_vendors text =
     map fst (filter (\<lambda>(k, als). alias_hit (py_lower text) als) KNOWN_VENDORS)
   \<and> distinct (extract_vendors text)
   \<and> (k \<in> set (extract_vendors text) \<longleftrightarrow>
        (\<exists>als alias. (k, als) \<in> set KNOWN_VENDORS \<and> alias \<in> set als
            \<and> py_in (py_lower alias) (py_lower text)))"
proof -
  have e: "extract_vendors text =
     map fst (filter (\<lambda>(k, als). alias_hit (py_lower text) als) KNOWN_VENDORS)"
    unfolding extract_vendors_def
    using scan_vendors_eq[OF KNOWN_VENDORS_distinct, of "[]"] by simp
  have d: "distinct (extract_vendors text)"
    unfolding e using KNOWN_VENDORS_distinct by (rule distinct_map_filter)
  have m: "k \<in> set (extract_vendors text) \<longleftrightarrow>
        (\<exists>als alias. (k, als) \<in> set KNOWN_VENDORS \<and> alias \<in> set als
            \<and> py_in (py_lower alias) (py_lower text))"
    unfolding e by (force simp: alias_hit_def list_ex_iff)
  from e d m show ?thesis by blast
qed

theorem extract_vendors_table_order_witness:
  "extract_vendors ''Metro et Distram'' = [''distram'', ''metro'']
   \<and> distinct (extract_vendors ''Metro et Distram'')"
proof -
  have a: "extract_vendors ''Metro et Distram'' = [''distram'', ''metro'']"
    by code_simp
  from extract_vendors_table_order[of "''Metro et Distram''" "''metro''"]
  have "distinct (extract_vendors ''Metro et Distram'')" by blast
  with a show ?thesis by blast
qed

text \<open>
  C9 as stated fails twice. In \<open>promocash distram\<close> the alias \<open>promocash\<close> matches at
  place 0 and \<open>distram\<close> at place 10, and the list returned starts with \<open>distram\<close>: the
  order is the table's, not the text's. And \<open>metro\<close> occurs in the accent-stripped form
  of the word written with e-acute (code point 233), for which nothing is returned.
\<close>

theorem extract_vendors_claim_counterexample:
  "extract_vendors ''promocash distram'' = [''distram'', ''promocash'']
   \<and> find_pos ''promocash'' (normalize_text ''promocash distram'') = Some 0
   \<and> find_pos ''distram'' (normalize_text ''promocash distram'') = Some 10
   \<and> py_in ''metro'' (normalize_text (''m'' @ [CHR 0xE9] @ ''tro''))
   \<and> extract_vendors (''m'' @ [CHR 0xE9] @ ''tro'') = []"
  by code_simp

subsection \<open>The cron expression\<close>

lemma py_str_int_0: "py_str_int 0 = ''0''"
  by code_simp

lemma py_str_int_3: "py_str_int 3 = ''3''"
  by code_simp

lemma py_str_int_9: "py_str_int 9 = ''9''"
  by code_simp

lemma py_str_int_14: "py_str_int 14 = ''14''"
  by code_simp

lemma parse_trigger:
  assumes "parse_automation_request text = Some cfg"
  shows "\<exists>f. frequency (trigger cfg) = Some f \<and>
     cron (trigger cfg) = Some (build_cron f (day_of_week (trigger cfg)) (hour (trigger cfg)))"
  using assms
  by (auto simp: parse_automation_request_def Let_def split: if_splits prod.splits)

text \<open>
  C5. The cron expression of every parsed configuration is \<open>build_cron\<close> of its own
  frequency, day of week and hour; \<open>build_cron\<close> gives \<open>0 H * * *\<close> for daily,
  \<open>0 H * * D\<close> for weekly (\<open>D\<close> is 0 when no day was found), \<open>0 H 1 * *\<close> for monthly
  and \<open>0 H * * 0\<close> for any other frequency; weekly, day 3, hour 14 gives \<open>0 14 * * 3\<close>
  and monthly, hour 9 gives \<open>0 9 1 * *\<close>.
\<close>

theorem cron_derivation:
  "(parse_automation_request text = Some cfg \<longrightarrow>
      (\<exists>f. frequency (trigger cfg) = Some f \<and>
         cron (trigger cfg) = Some (build_cron f (day_of_week (trigger cfg)) (hour (trigger cfg)))))
   \<and> build_cron ''daily'' d h = ''0 '' @ py_str_int h @ '' * * *''
   \<and> build_cron ''weekly'' (Some n) h = ''0 '' @ py_str_int h @ '' * * '' @ py_str_int n
   \<and> build_cron ''weekly'' None h = ''0 '' @ py_str_int h @ '' * * 0''
   \<and> build_cron ''monthly'' d h = ''0 '' @ py_str_int h @ '' 1 * *''
   \<and> (f \<notin> {''daily'', ''weekly'', ''monthly''} \<longrightarrow>
        build_cron f d h = ''0 '' @ py_str_int h @ '' * * 0'')
   \<and> build_cron ''weekly'' (Some 3) 14 = ''0 14 * * 3''
   \<and> build_cron ''monthly'' None 9 = ''0 9 1 * *''"
  using parse_trigger[of "text" cfg]
  by (simp add: build_cron_def py_str_int_0 py_str_int_3 py_str_int_9 py_str_int_14)

theorem cron_derivation_witness:
  "parse_automation_request ''automatise'' = Some cfg_automatise
   \<and> cron (trigger cfg_automatise) = Some (build_cron ''weekly'' (Some 0) 9)
   \<and> ''yearly'' \<notin> {''daily'', ''weekly'', ''monthly''}
   \<and> build_cron ''yearly'' None 7 = ''0 '' @ py_str_int 7 @ '' * * 0''"
proof -
  have p: "parse_automation_request ''automatise'' = Some cfg_automatise"
    unfolding cfg_automatise_def by code_simp
  have n: "''yearly'' \<notin> {''daily'', ''weekly'', ''monthly''}" by simp
  from cron_derivation[of "''automatise''" cfg_automatise None 7 0 "''yearly''"] p n
  show ?thesis by (simp add: cfg_automatise_def)
qed

subsection \<open>The intent gate\<close>

text \<open>
  C6. The request \<open>rappelle-moi d'appeler Jean\<close> is no automation request: the parser
  returns nothing. The request \<open>chaque lundi [a-grave] 9h r[e-acute]cup[e-grave]re les
  factures de Distram\<close> (code points 224, 233, 232) is parsed, with the vendors
  \<open>[distram]\<close>, day of week 0 and hour 9.
\<close>

theorem intent_gate_examples:
  "parse_automation_request (''rappelle-moi d'' @ [CHR 0x27] @ ''appeler Jean'') = None
   \<and> (\<exists>cfg. parse_automation_request
          (''chaque lundi '' @ [CHR 0xE0] @ '' 9h r'' @ [CHR 0xE9] @ ''cup'' @ [CHR 0xE8]
             @ ''re les factures de Distram'') = Some cfg
        \<and> vendors cfg = [''distram'']
        \<and> day_of_week (trigger cfg) = Some 0
        \<and> hour (trigger cfg) = 9)"
proof -
  have a: "parse_automation_request (''rappelle-moi d'' @ [CHR 0x27] @ ''appeler Jean'') = None"
    by code_simp
  have b: "map_option (\<lambda>cfg. (vendors cfg, day_of_week (trigger cfg), hour (trigger cfg)))
      (parse_automation_request
          (''chaque lundi '' @ [CHR 0xE0] @ '' 9h r'' @ [CHR 0xE9] @ ''cup'' @ [CHR 0xE8]
             @ ''re les factures de Distram'')) = Some ([''distram''], Some 0, 9)"
    by code_simp
  from b have "\<exists>cfg. parse_automation_request
          (''chaque lundi '' @ [CHR 0xE0] @ '' 9h r'' @ [CHR 0xE9] @ ''cup'' @ [CHR 0xE8]
             @ ''re les factures de Distram'') = Some cfg
        \<and> vendors cfg = [''distram'']
        \<and> day_of_week (trigger cfg) = Some 0
        \<and> hour (trigger cfg) = 9"
    by auto
  with a show ?thesis by blast
qed

section \<open>Object ids\<close>

lemma ObjectId_oid_a: "ObjectId oid_a = Inr oid_a"
  by code_simp
lemma ObjectId_oid_b: "ObjectId oid_b = Inr oid_b"
  by code_simp
lemma ObjectId_abc: "ObjectId ''abc'' = Inl (InvalidId ''abc'')"
  by code_simp

section \<open>The table store: properties\<close>

subsection \<open>The running total\<close>

text \<open>
  With amounts taken as exact numbers, adding a row, or rows in bulk, keeps the total
  equal to the sum of the amounts, and does so in the one update that appends the rows.
  Deleting a row does not touch the total.
\<close>

lemma add_montant_sum: "add_montant acc p = Inr x \<Longrightarrow> x = acc + montant_of p"
  by (auto simp: add_montant_def montant_of_def float_of_int_def
           split: option.splits pyval.splits if_splits)

lemma bulk_total_sum: "bulk_total acc xs = Inr x \<Longrightarrow> x = acc + sum_list (map montant_of xs)"
proof (induction xs arbitrary: acc)
  case Nil
  then show ?case by simp
next
  case (Cons p xs)
  from Cons.prems obtain y where y: "add_montant acc p = Inr y" and r: "bulk_total y xs = Inr x"
    by (auto split: sum.splits)
  from Cons.IH[OF r] add_montant_sum[OF y] show ?case by simp
qed

lemma add_montant_fits: "montant_fits p \<Longrightarrow> \<exists>x. add_montant acc p = Inr x"
  by (auto simp: add_montant_def montant_fits_def float_of_int_def
           split: option.splits pyval.splits)

lemma bulk_total_fits: "list_all montant_fits xs \<Longrightarrow> \<exists>x. bulk_total acc xs = Inr x"
proof (induction xs arbitrary: acc)
  case Nil
  then show ?case by simp
next
  case (Cons p xs)
  from Cons.prems add_montant_fits[of p acc] obtain y where y: "add_montant acc p = Inr y"
    by auto
  from Cons.prems Cons.IH[of y] show ?case by (simp add: y)
qed

lemma bulk_rows_Nil_iff [simp]: "bulk_rows now new_id src i xs = [] \<longleftrightarrow> xs = []"
  by (cases xs) auto

lemma bulk_rows_data: "map row_data (bulk_rows now new_id src i xs) = xs"
  by (induction xs arbitrary: i) auto

lemma bulk_rows_length: "length (bulk_rows now new_id src i xs) = length xs"
  by (induction xs arbitrary: i) auto

lemma bulk_rows_sum:
  "sum_list (map (\<lambda>r. montant_of (row_data r)) (bulk_rows now new_id src i xs))
     = sum_list (map montant_of xs)"
  by (induction xs arbitrary: i) auto

lemma add_row_total_consistent:
  assumes "add_row d now new_id tid payload se sa = Inr (rid, d')"
    and "ObjectId tid = Inr oid" and "tables d oid = Some t" and "total_consistent t"
  shows "\<exists>t'. tables d' oid = Some t' \<and> total_consistent t'
           \<and> row_data (last (rows t')) = payload \<and> butlast (rows t') = rows t"
  using assms
  by (auto simp: add_row_def Let_def total_consistent_def rows_sum_def
           split: option.splits pyval.splits)

lemma add_rows_bulk_total_consistent:
  assumes "add_rows_bulk d now new_id tid rows_data sa = Inr (n, d')"
    and "ObjectId tid = Inr oid" and "tables d oid = Some t" and "total_consistent t"
  shows "\<exists>t'. tables d' oid = Some t' \<and> total_consistent t'
           \<and> map row_data (rows t') = map row_data (rows t) @ rows_data"
proof -
  from assms(1) obtain x where x: "bulk_total 0 rows_data = Inr x"
    by (auto simp: add_rows_bulk_def Let_def split: sum.splits)
  from bulk_total_sum[OF x] have xs: "x = sum_list (map montant_of rows_data)" by simp
  show ?thesis
  proof (cases "rows_data = []")
    case True
    with assms x show ?thesis by (simp add: add_rows_bulk_def)
  next
    case False
    from assms False have d': "d' = d\<lparr>tables := (tables d)(oid \<mapsto>
         t\<lparr>rows := rows t @ bulk_rows now new_id sa 0 rows_data, table_updated_at := now,
           total_amount := total_amount t + x\<rparr>)\<rparr>"
      by (simp add: add_rows_bulk_def Let_def x)
    show ?thesis
      using assms(4)
      by (simp add: d' total_consistent_def rows_sum_def xs bulk_rows_sum bulk_rows_data)
  qed
qed

lemma delete_row_total_unchanged:
  assumes "delete_row d now tid rid = Inr (b, d')"
    and "ObjectId tid = Inr oid" and "tables d oid = Some t"
  shows "\<exists>t'. tables d' oid = Some t' \<and> total_amount t' = total_amount t
           \<and> rows t' = filter (\<lambda>r. row_id r \<noteq> rid) (rows t)"
proof -
  from assms have "d' = d\<lparr>tables := (tables d)(oid \<mapsto>
       t\<lparr>rows := filter (\<lambda>r. row_id r \<noteq> rid) (rows t), table_updated_at := now\<rparr>)\<rparr>"
    by (simp add: delete_row_def Let_def)
  then show ?thesis by simp
qed

text \<open>
  C1 fails on \<open>delete_row\<close>. The table holds one row of amount 10 and the total 10;
  after \<open>delete_row\<close> of that row the table has no row and the total is still 10.
  \<open>add_row\<close> and \<open>add_rows_bulk\<close> adjust the total in their update; \<open>delete_row\<close>
  pulls the row and sets \<open>updated_at\<close> only.
\<close>

theorem delete_row_breaks_total:
  "total_consistent table_one_row
   \<and> tables db_one_row oid_a = Some table_one_row
   \<and> (\<exists>d' t'. delete_row db_one_row 5 oid_a ''r1'' = Inr (True, d')
         \<and> tables d' oid_a = Some t'
         \<and> rows t' = [] \<and> total_amount t' = 10 \<and> rows_sum t' = 0
         \<and> \<not> total_consistent t')"
proof -
  have c: "total_consistent table_one_row" by code_simp
  have t: "tables db_one_row oid_a = Some table_one_row" by (simp add: db_one_row_def)
  have o: "ObjectId oid_a = Inr oid_a" by (rule ObjectId_oid_a)
  have ne: "table_one_row\<lparr>rows := [], table_updated_at := 5\<rparr> \<noteq> table_one_row"
    by (simp add: table_one_row_def)
  have f: "filter (\<lambda>r. row_id r \<noteq> ''r1'') (rows table_one_row) = []"
    by (simp add: table_one_row_def)
  have d: "delete_row db_one_row 5 oid_a ''r1'' =
     Inr (True, db_one_row\<lparr>tables := (tables db_one_row)(oid_a \<mapsto>
        table_one_row\<lparr>rows := [], table_updated_at := 5\<rparr>)\<rparr>)"
    using ne by (simp add: delete_row_def o t f Let_def)
  have s: "total_amount (table_one_row\<lparr>rows := [], table_updated_at := 5\<rparr>) = 10"
    by (simp add: table_one_row_def)
  show ?thesis
    using c t d s by (simp add: total_consistent_def rows_sum_def)
qed

subsection \<open>The count of a bulk insert\<close>






section \<open>The engine: properties\<close>

subsection \<open>An automation that does not exist\<close>

text \<open>
  C4, as the code has it. For a well-formed automation id under which the store has no
  automation, \<open>run_automation\<close> returns the failure \<open>Automation not found\<close>, raises
  nothing and leaves the whole store, the run history with it, as it was.
\<close>

theorem run_automation_not_found:
  assumes "ObjectId automation_id = Inr oid" and "automations d oid = None"
  shows "run_automation d gw now run_id new_id automation_id
           = Inr (RunFailure ''Automation not found'', d)"
  using assms by (simp add: run_automation_def)

theorem run_automation_not_found_witness:
  "ObjectId oid_b = Inr oid_b \<and> automations db_a oid_b = None
   \<and> run_automation db_a gw_quiet 100 ''run1'' ids0 oid_b
        = Inr (RunFailure ''Automation not found'', db_a)"
proof -
  have o: "ObjectId oid_b = Inr oid_b" by (rule ObjectId_oid_b)
  have n: "automations db_a oid_b = None" by (simp add: db_a_def oid_a_def oid_b_def)
  from run_automation_not_found[OF o n] o n show ?thesis by simp
qed

text \<open>
  C4 as stated, for every automation id without a document, fails: the id \<open>abc\<close> has no
  document, and \<open>run_automation\<close> raises \<open>InvalidId\<close> on it instead of returning a
  failure result. (It raises before it reads or writes the store.)
\<close>

theorem run_automation_malformed_id:
  "run_automation db_a gw_quiet 100 ''run1'' ids0 ''abc'' = Inl (InvalidId ''abc'')"
  by (simp add: run_automation_def ObjectId_abc)

subsection \<open>A run whose pipeline fails\<close>

lemma ObjectId_Inr: "ObjectId s = Inr x \<Longrightarrow> x = oid_of s"
  by (simp add: oid_of_def)

lemma check_duplicate_runs [simp]:
  "check_duplicate (d\<lparr>automation_runs := r\<rparr>) tid i = check_duplicate d tid i"
  by (simp add: check_duplicate_def split: sum.splits)

lemma process_emails_runs [simp]:
  "process_emails (d\<lparr>automation_runs := r\<rparr>) gw a v ems st = process_emails d gw a v ems st"
proof (induction ems arbitrary: st)
  case Nil
  then show ?case by simp
next
  case (Cons em ems)
  obtain invs n where st: "st = (invs, n)" by (cases st)
  show ?case unfolding st
    by (simp add: Cons.IH split: option.splits sum.splits bool.splits)
qed

lemma search_one_runs [simp]:
  "search_one (d\<lparr>automation_runs := r\<rparr>) gw now a v = search_one d gw now a v"
  by (intro ext) (simp add: search_one_def split: sum.splits)

lemma search_vendors_runs [simp]:
  "search_vendors (d\<lparr>automation_runs := r\<rparr>) gw now a vs st = search_vendors d gw now a vs st"
  by (induction vs arbitrary: st) (auto split: sum.splits)

lemma add_rows_bulk_runs:
  "add_rows_bulk (d\<lparr>automation_runs := r\<rparr>) now new_id tid xs src =
     map_sum id (map_prod id (\<lambda>d'. d'\<lparr>automation_runs := r\<rparr>)) (add_rows_bulk d now new_id tid xs src)"
  by (auto simp: add_rows_bulk_def Let_def split: sum.splits option.splits)

lemma execute_actions_runs:
  "execute_actions (d\<lparr>automation_runs := r\<rparr>) gw now new_id oid a =
     map_sum id (map_prod id (\<lambda>d'. d'\<lparr>automation_runs := r\<rparr>)) (execute_actions d gw now new_id oid a)"
  by (auto simp: execute_actions_def add_rows_bulk_runs split: sum.splits option.splits prod.splits)

text \<open>
  C3. When the automation exists and the action pipeline ends with an error \<open>e\<close>,
  \<open>run_automation\<close> returns the failure with the message of \<open>e\<close>; the run document is
  stored with the status \<open>error\<close>, that message and the completion time; the automation
  document differs from the one before only in \<open>last_run\<close> (now) and \<open>last_error\<close> (the
  message): its \<open>run_count\<close> and its \<open>status\<close> are the ones it had. No table changes.
\<close>

theorem run_automation_error:
  assumes "ObjectId automation_id = Inr oid" and "automations d oid = Some a"
    and "execute_actions d gw now new_id oid a = Inl e"
  shows "\<exists>d' r a'. run_automation d gw now run_id new_id automation_id
                     = Inr (RunFailure (str_error e), d')
           \<and> automation_runs d' run_id = Some r
           \<and> run_status r = ''error'' \<and> run_error r = Some (str_error e)
           \<and> completed_at r = Some now
           \<and> automations d' oid = Some a'
           \<and> a' = a\<lparr>last_run := Some now, last_error := Some (str_error e)\<rparr>
           \<and> last_error a' = Some (str_error e) \<and> last_run a' = Some now
           \<and> run_count a' = run_count a \<and> status a' = status a
           \<and> tables d' = tables d"
  using assms
  by (simp add: run_automation_def Let_def execute_actions_runs)

lemma execute_actions_no_senders:
  "execute_actions db_a gw_no_senders 100 ids0 oid_a automation_a = Inl (Raised ''store unreachable'')"
  by (simp add: execute_actions_def automation_a_def gw_no_senders_def get_vendor_emails_def)

theorem run_automation_error_witness:
  "ObjectId oid_a = Inr oid_a \<and> automations db_a oid_a = Some automation_a
   \<and> execute_actions db_a gw_no_senders 100 ids0 oid_a automation_a = Inl (Raised ''store unreachable'')
   \<and> (\<exists>d'. run_automation db_a gw_no_senders 100 ''run1'' ids0 oid_a
              = Inr (RunFailure ''store unreachable'', d')
         \<and> map_option run_status (automation_runs d' ''run1'') = Some ''error''
         \<and> map_option status (automations d' oid_a) = Some ''active''
         \<and> map_option run_count (automations d' oid_a) = Some 0
         \<and> map_option last_error (automations d' oid_a) = Some (Some ''store unreachable''))"
proof -
  have o: "ObjectId oid_a = Inr oid_a" by (rule ObjectId_oid_a)
  have s: "automations db_a oid_a = Some automation_a" by (simp add: db_a_def)
  note x = execute_actions_no_senders
  from run_automation_error[OF o s x, of "''run1''"]
  obtain d' r a' where
    "run_automation db_a gw_no_senders 100 ''run1'' ids0 oid_a
        = Inr (RunFailure (str_error (Raised ''store unreachable'')), d')"
    "automation_runs d' ''run1'' = Some r" "run_status r = ''error''"
    "automations d' oid_a = Some a'" "last_error a' = Some (str_error (Raised ''store unreachable''))"
    "run_count a' = run_count automation_a" "status a' = status automation_a"
    by blast
  then show ?thesis using o s x by (auto simp: automation_a_def)
qed

subsection \<open>What the pipeline computes\<close>

lemma process_emails_step:
  "process_emails d gw a v (em # ems) (invs, n) =
     (case email_row d gw a v em of
        Inl e \<Rightarrow> (Some e, invs, Suc n)
      | Inr None \<Rightarrow> process_emails d gw a v ems (invs, Suc n)
      | Inr (Some row) \<Rightarrow> process_emails d gw a v ems (invs @ [row], Suc n))"
  by (simp add: email_row_def split: sum.splits option.splits bool.splits)

lemma table_ok_check:
  "table_ok a \<Longrightarrow> table_of a = Some tid \<Longrightarrow>
   check_duplicate d tid i =
     Inr (case tables d (oid_of tid) of None \<Rightarrow> False
          | Some t \<Rightarrow> list_ex (\<lambda>r. source_email_id r = PStr i) (rows t))"
  by (simp add: table_ok_def check_duplicate_def oid_of_def split: sum.splits)

lemma email_row_ok: "table_ok a \<Longrightarrow> \<exists>r. email_row d gw a v em = Inr r"
  by (cases "table_of a")
     (auto simp: email_row_def table_ok_check split: sum.splits option.splits bool.splits)

lemma process_emails_acc:
  "process_emails d gw a v ems (acc, n) =
     (case process_emails d gw a v ems ([], 0) of (e, invs, k) \<Rightarrow> (e, acc @ invs, n + k))"
proof (induction ems arbitrary: acc n)
  case Nil
  then show ?case by simp
next
  case (Cons em ems)
  have 1: "\<And>acc n. process_emails d gw a v ems (acc, n) =
     (case process_emails d gw a v ems ([], 0) of (e, invs, k) \<Rightarrow> (e, acc @ invs, n + k))"
    by (rule Cons.IH)
  show ?case
    unfolding process_emails_step
    by (subst (1 2 3 4) 1) (simp split: sum.splits option.splits prod.splits)
qed

lemma vendor_rows_Nil [simp]: "vendor_rows d gw a v [] = []"
  by (simp add: vendor_rows_def)

lemma vendor_rows_Cons_aux:
  assumes IH: "\<And>acc n. process_emails d gw a v ems (acc, n)
               = (None, acc @ vendor_rows d gw a v ems, n + length ems)"
    and r: "email_row d gw a v em = Inr r"
  shows "vendor_rows d gw a v (em # ems) =
           (case r of None \<Rightarrow> [] | Some row \<Rightarrow> [row]) @ vendor_rows d gw a v ems"
  unfolding vendor_rows_def[of d gw a v "em # ems"] process_emails_step r
  by (cases r) (simp_all add: IH del: process_emails.simps)

lemma process_emails_ok:
  "table_ok a \<Longrightarrow>
   process_emails d gw a v ems (acc, n) = (None, acc @ vendor_rows d gw a v ems, n + length ems)"
proof (induction ems arbitrary: acc n)
  case Nil
  then show ?case by simp
next
  case (Cons em ems)
  from email_row_ok[OF Cons.prems] obtain r where r: "email_row d gw a v em = Inr r" by blast
  have IH: "\<And>acc n. process_emails d gw a v ems (acc, n)
               = (None, acc @ vendor_rows d gw a v ems, n + length ems)"
    using Cons.IH[OF Cons.prems] .
  note vr = vendor_rows_Cons_aux[OF IH r]
  show ?case
    unfolding process_emails_step r vr
    by (cases r) (simp_all add: IH del: process_emails.simps)
qed

lemma vendor_rows_Cons:
  assumes ok: "table_ok a"
  shows "vendor_rows d gw a v (em # ems) =
     (case email_row d gw a v em of Inr (Some r) \<Rightarrow> [r] | _ \<Rightarrow> []) @ vendor_rows d gw a v ems"
proof -
  from email_row_ok[OF ok] obtain r where r: "email_row d gw a v em = Inr r" by blast
  have "vendor_rows d gw a v (em # ems) =
           (case r of None \<Rightarrow> [] | Some row \<Rightarrow> [row]) @ vendor_rows d gw a v ems"
    by (rule vendor_rows_Cons_aux[OF process_emails_ok[OF ok] r])
  then show ?thesis by (cases r) (simp_all add: r)
qed

lemma search_one_ok:
  "table_ok a \<Longrightarrow>
   search_one d gw now a v (acc, n) addr =
     (acc @ address_rows d gw now a v addr, n + length (address_messages gw now a addr))"
  by (simp add: search_one_def address_rows_def address_messages_def process_emails_ok
           split: sum.splits)

lemma foldl_search_one_ok:
  "table_ok a \<Longrightarrow>
   foldl (search_one d gw now a v) (acc, n) es =
     (acc @ concat (map (address_rows d gw now a v) es),
      n + length (concat (map (address_messages gw now a) es)))"
  by (induction es arbitrary: acc n) (simp_all add: search_one_ok)

lemma search_vendors_ok:
  "table_ok a \<Longrightarrow> \<forall>v\<in>set vs. \<exists>es. get_vendor_emails gw (user_id a) v = Inr es \<Longrightarrow>
   search_vendors d gw now a vs (acc, n) =
     Inr (acc @ concat (map (vendor_all_rows d gw now a) vs),
          n + length (concat (map (vendor_messages gw now a) vs)))"
proof (induction vs arbitrary: acc n)
  case Nil
  then show ?case by simp
next
  case (Cons v vs)
  from Cons.prems obtain es where es: "get_vendor_emails gw (user_id a) v = Inr es" by auto
  from Cons.prems have rest: "\<forall>v\<in>set vs. \<exists>es. get_vendor_emails gw (user_id a) v = Inr es"
    by simp
  show ?case
    by (simp add: es foldl_search_one_ok[OF Cons.prems(1)] Cons.IH[OF Cons.prems(1) rest]
          vendor_all_rows_def vendor_messages_def)
qed

lemma search_vendors_Inr:
  "search_vendors d gw now a vs st = Inr x \<Longrightarrow>
   \<forall>v\<in>set vs. \<exists>es. get_vendor_emails gw (user_id a) v = Inr es"
  by (induction vs arbitrary: st) (auto split: sum.splits)

lemma table_ok_ObjectId:
  "table_ok a \<Longrightarrow> table_of a = Some tid \<Longrightarrow> ObjectId tid = Inr (oid_of tid)"
  by (simp add: table_ok_def oid_of_def split: sum.splits)

lemma add_rows_bulk_ok:
  assumes "ObjectId tid = Inr toid" and "list_all montant_fits xs"
  shows "\<exists>d'. add_rows_bulk d now new_id tid xs src = Inr (length xs, d')"
proof -
  from bulk_total_fits[OF assms(2), of 0] obtain x where x: "bulk_total 0 xs = Inr x" by blast
  show ?thesis
    using assms(1)
    by (auto simp: add_rows_bulk_def Let_def bulk_rows_length x split: option.splits)
qed

lemma scan_attachments_fits:
  "scan_attachments gw acct v em atts = Inr (Some r) \<Longrightarrow> montant_fits r"
  by (induction atts)
     (auto simp: Let_def montant_fits_def invoice_row_def split: if_splits sum.splits option.splits)

lemma email_row_fits: "email_row d gw a v em = Inr (Some r) \<Longrightarrow> montant_fits r"
  by (auto simp: email_row_def scan_attachments_fits split: sum.splits option.splits bool.splits)

lemma vendor_rows_fits: "table_ok a \<Longrightarrow> list_all montant_fits (vendor_rows d gw a v ems)"
proof (induction ems)
  case Nil
  then show ?case by simp
next
  case (Cons em ems)
  then show ?case
    by (auto simp: vendor_rows_Cons email_row_fits split: sum.splits option.splits)
qed

lemma address_rows_fits:
  "table_ok a \<Longrightarrow> list_all montant_fits (address_rows d gw now a v addr)"
  by (simp add: address_rows_def vendor_rows_fits split: sum.splits)

lemma vendor_all_rows_fits:
  assumes "table_ok a"
  shows "list_all montant_fits (vendor_all_rows d gw now a v)"
proof (cases "get_vendor_emails gw (user_id a) v")
  case (Inl e)
  then show ?thesis by (simp add: vendor_all_rows_def)
next
  case (Inr es)
  have "\<forall>r \<in> set (concat (map (address_rows d gw now a v) es)). montant_fits r"
  proof
    fix r
    assume "r \<in> set (concat (map (address_rows d gw now a v) es))"
    then obtain addr where "r \<in> set (address_rows d gw now a v addr)" by auto
    with address_rows_fits[OF assms, of d gw now v addr] show "montant_fits r"
      by (simp add: list_all_iff)
  qed
  with Inr show ?thesis by (simp add: vendor_all_rows_def list_all_iff)
qed

lemma run_rows_fits:
  assumes "table_ok a"
  shows "list_all montant_fits (run_rows d gw now a)"
proof -
  have "\<forall>r \<in> set (run_rows d gw now a). montant_fits r"
  proof
    fix r
    assume "r \<in> set (run_rows d gw now a)"
    then obtain v where "r \<in> set (vendor_all_rows d gw now a v)"
      by (auto simp: run_rows_def)
    with vendor_all_rows_fits[OF assms, of d gw now v] show "montant_fits r"
      by (simp add: list_all_iff)
  qed
  then show ?thesis by (simp add: list_all_iff)
qed

lemma execute_actions_ok:
  assumes ok: "table_ok a"
    and res: "\<forall>v\<in>set (auto_vendors a). \<exists>es. get_vendor_emails gw (user_id a) v = Inr es"
  shows "\<exists>d'. execute_actions d gw now new_id oid a =
           Inr (\<lparr>res_emails_processed = length (run_messages gw now a),
                  invoices_found = length (run_rows d gw now a),
                  res_rows_added = (if table_of a = None then 0 else length (run_rows d gw now a)),
                  invoices = run_rows d gw now a\<rparr>, d')"
proof -
  have sv: "search_vendors d gw now a (auto_vendors a) ([], 0) =
      Inr (run_rows d gw now a, length (run_messages gw now a))"
    using search_vendors_ok[OF ok res, of d now "[]" 0]
    by (simp add: run_rows_def run_messages_def)
  show ?thesis
  proof (cases "table_of a")
    case None
    then show ?thesis by (simp add: execute_actions_def sv)
  next
    case (Some tid)
    from table_ok_ObjectId[OF ok Some] have o: "ObjectId tid = Inr (oid_of tid)" .
    from add_rows_bulk_ok[OF o run_rows_fits[OF ok]]
    obtain d' where b: "add_rows_bulk d now new_id tid (run_rows d gw now a) (Some oid)
        = Inr (length (run_rows d gw now a), d')" by blast
    show ?thesis
      by (cases "run_rows d gw now a = []") (simp_all add: execute_actions_def sv Some b)
  qed
qed

text \<open>
  C7. Take an automation of the store whose table id is well formed and whose vendors
  all resolve to addresses. Whatever its searches, fetches and extractions return or
  raise, the run succeeds; \<open>emails_processed\<close> is the number of messages the searches
  that did not raise returned, and the invoices are the rows of those messages. With
  three vendors of one address each, where the search of the second raises, the count is
  that of the messages of the first and third search and the rows are those of the first
  vendor followed by those of the third. A message whose fetch or whose extraction raises
  adds no row, and the messages after it are processed as without it.
\<close>

theorem partial_failure_isolation:
  assumes "ObjectId automation_id = Inr oid" and "automations d oid = Some a"
    and "table_ok a"
    and "\<forall>v\<in>set (auto_vendors a). \<exists>es. get_vendor_emails gw (user_id a) v = Inr es"
  shows "\<exists>res d'.
      run_automation d gw now run_id new_id automation_id = Inr (RunSuccess run_id res, d')
    \<and> res_emails_processed res = length (run_messages gw now a)
    \<and> invoices res = run_rows d gw now a
    \<and> res_rows_added res = (if table_of a = None then 0 else length (run_rows d gw now a))
    \<and> (auto_vendors a = [v1, v2, v3]
         \<and> get_vendor_emails gw (user_id a) v1 = Inr [e1]
         \<and> get_vendor_emails gw (user_id a) v2 = Inr [e2]
         \<and> get_vendor_emails gw (user_id a) v3 = Inr [e3]
         \<and> search_emails gw (account_id a) (search_query gw now e1) = Inr ms1
         \<and> search_emails gw (account_id a) (search_query gw now e2) = Inl err
         \<and> search_emails gw (account_id a) (search_query gw now e3) = Inr ms3
        \<longrightarrow> res_emails_processed res = length ms1 + length ms3
          \<and> invoices res = vendor_rows d gw a v1 ms1 @ vendor_rows d gw a v3 ms3)
    \<and> (get_email_by_id gw (account_id a) (email_id em) = Inl err
        \<longrightarrow> vendor_rows d gw a v (em # ems) = vendor_rows d gw a v ems)
    \<and> (get_email_by_id gw (account_id a) (email_id em) = Inr atts
         \<and> scan_attachments gw (account_id a) v em atts = Inl err
        \<longrightarrow> vendor_rows d gw a v (em # ems) = vendor_rows d gw a v ems)"
proof -
  let ?res = "\<lparr>res_emails_processed = length (run_messages gw now a),
                 invoices_found = length (run_rows d gw now a),
                 res_rows_added = (if table_of a = None then 0 else length (run_rows d gw now a)),
                 invoices = run_rows d gw now a\<rparr>"
  from execute_actions_ok[OF assms(3,4), of d now new_id oid]
  obtain d2 where x: "execute_actions d gw now new_id oid a = Inr (?res, d2)" by blast
  have run: "\<exists>d'. run_automation d gw now run_id new_id automation_id
                = Inr (RunSuccess run_id ?res, d')"
    using assms(1,2) by (simp add: run_automation_def Let_def execute_actions_runs x)
  have three: "auto_vendors a = [v1, v2, v3]
         \<and> get_vendor_emails gw (user_id a) v1 = Inr [e1]
         \<and> get_vendor_emails gw (user_id a) v2 = Inr [e2]
         \<and> get_vendor_emails gw (user_id a) v3 = Inr [e3]
         \<and> search_emails gw (account_id a) (search_query gw now e1) = Inr ms1
         \<and> search_emails gw (account_id a) (search_query gw now e2) = Inl err
         \<and> search_emails gw (account_id a) (search_query gw now e3) = Inr ms3
        \<longrightarrow> length (run_messages gw now a) = length ms1 + length ms3
          \<and> run_rows d gw now a = vendor_rows d gw a v1 ms1 @ vendor_rows d gw a v3 ms3"
    by (simp add: run_messages_def run_rows_def vendor_messages_def vendor_all_rows_def
          address_messages_def address_rows_def)
  have ex1: "get_email_by_id gw (account_id a) (email_id em) = Inl err
        \<longrightarrow> vendor_rows d gw a v (em # ems) = vendor_rows d gw a v ems"
    by (auto simp: vendor_rows_Cons[OF assms(3)] email_row_def
             split: sum.splits option.splits bool.splits)
  have ex2: "get_email_by_id gw (account_id a) (email_id em) = Inr atts
         \<and> scan_attachments gw (account_id a) v em atts = Inl err
        \<longrightarrow> vendor_rows d gw a v (em # ems) = vendor_rows d gw a v ems"
    by (auto simp: vendor_rows_Cons[OF assms(3)] email_row_def
             split: sum.splits option.splits bool.splits)
  from run obtain d' where "run_automation d gw now run_id new_id automation_id
                = Inr (RunSuccess run_id ?res, d')" by blast
  with three ex1 ex2 show ?thesis
    by (intro exI[of _ ?res] exI[of _ d']) simp
qed

lemma table_ok_three: "table_ok automation_three"
  by code_simp

lemma three_user: "user_id automation_three = ''u'' \<and> account_id automation_three = ''acct''
   \<and> auto_vendors automation_three = [''distram'', ''promocash'', ''metro'']"
  by (simp add: automation_three_def automation_a_def)

lemma three_resolve:
  "get_vendor_emails gw_three ''u'' ''distram'' = Inr [''facturation@distram.com'']
   \<and> get_vendor_emails gw_three ''u'' ''promocash'' = Inr [''no-reply@promocash.com'']
   \<and> get_vendor_emails gw_three ''u'' ''metro'' = Inr [''factures@metro.fr'']"
  by code_simp

lemma three_search:
  "search_emails gw_three ''acct'' (search_query gw_three 100 ''facturation@distram.com'')
     = Inr [msg ''m1'']
   \<and> search_emails gw_three ''acct'' (search_query gw_three 100 ''no-reply@promocash.com'')
     = Inl (Raised ''timeout'')
   \<and> search_emails gw_three ''acct'' (search_query gw_three 100 ''factures@metro.fr'')
     = Inr [msg ''m2'', msg ''m3'']"
  by code_simp

lemma three_rows:
  "map invoice_email_id (vendor_rows db_three gw_three automation_three ''distram'' [msg ''m1''])
     = [PStr ''m1'']
   \<and> map invoice_email_id
        (vendor_rows db_three gw_three automation_three ''metro'' [msg ''m2'', msg ''m3''])
     = [PStr ''m2'', PStr ''m3'']"
  by code_simp

theorem partial_failure_isolation_witness:
  "ObjectId oid_a = Inr oid_a \<and> automations db_three oid_a = Some automation_three
   \<and> table_ok automation_three
   \<and> search_emails gw_three ''acct'' (search_query gw_three 100 ''no-reply@promocash.com'')
        = Inl (Raised ''timeout'')
   \<and> (\<exists>res d'. run_automation db_three gw_three 100 ''run1'' ids0 oid_a
                   = Inr (RunSuccess ''run1'' res, d')
          \<and> res_emails_processed res = 3
          \<and> map invoice_email_id (invoices res) = [PStr ''m1'', PStr ''m2'', PStr ''m3''])"
proof -
  have o: "ObjectId oid_a = Inr oid_a" by (rule ObjectId_oid_a)
  have s: "automations db_three oid_a = Some automation_three" by (simp add: db_three_def)
  note ok = table_ok_three
  have res: "\<forall>v\<in>set (auto_vendors automation_three).
               \<exists>es. get_vendor_emails gw_three (user_id automation_three) v = Inr es"
    using three_resolve by (simp add: three_user)
  from partial_failure_isolation[OF o s ok res, of 100 "''run1''" ids0
         "''distram''" "''promocash''" "''metro''"
         "''facturation@distram.com''" "''no-reply@promocash.com''" "''factures@metro.fr''"
         "[msg ''m1'']" "Raised ''timeout''" "[msg ''m2'', msg ''m3'']"
         "msg ''m1''" "''distram''" "[]" "[]"]
  obtain r d' where
    run: "run_automation db_three gw_three 100 ''run1'' ids0 oid_a = Inr (RunSuccess ''run1'' r, d')"
    and n: "res_emails_processed r = length [msg ''m1''] + length [msg ''m2'', msg ''m3'']"
    and i: "invoices r = vendor_rows db_three gw_three automation_three ''distram'' [msg ''m1'']
                @ vendor_rows db_three gw_three automation_three ''metro'' [msg ''m2'', msg ''m3'']"
    using three_resolve three_search by (simp add: three_user) blast
  from i have "map invoice_email_id (invoices r) = [PStr ''m1'', PStr ''m2'', PStr ''m3'']"
    using three_rows by simp
  with run n o s ok three_search show ?thesis by auto
qed

subsection \<open>The source ids of the rows a run adds\<close>

lemma subseq_distinct: "subseq xs ys \<Longrightarrow> distinct ys \<Longrightarrow> distinct xs"
proof -
  assume "subseq xs ys" and "distinct ys"
  then have "xs \<in> set (subseqs ys)" by simp
  then show ?thesis using \<open>distinct ys\<close> by (rule subseqs_distinctD)
qed

lemma subseq_concat_map:
  "(\<And>x. x \<in> set xs \<Longrightarrow> subseq (f x) (g x)) \<Longrightarrow> subseq (concat (map f xs)) (concat (map g xs))"
  by (induction xs) (auto intro: list_emb_append_mono)

lemma scan_attachments_id:
  "scan_attachments gw acct v em atts = Inr (Some r) \<Longrightarrow> invoice_email_id r = PStr (email_id em)"
  by (induction atts)
     (auto simp: Let_def invoice_email_id_def invoice_row_def split: if_splits sum.splits option.splits)

lemma email_row_Some:
  assumes "email_row d gw a v em = Inr (Some r)"
  shows "invoice_email_id r = PStr (email_id em)"
    and "table_of a = Some tid \<Longrightarrow> check_duplicate d tid (email_id em) = Inr False"
  using assms
  by (auto simp: email_row_def scan_attachments_id split: sum.splits option.splits bool.splits)

lemma email_row_fresh:
  assumes ok: "table_ok a" and tof: "table_of a = Some tid"
    and tt: "tables d (oid_of tid) = Some t"
    and r: "email_row d gw a v em = Inr (Some r)"
  shows "invoice_email_id r \<notin> set (map source_email_id (rows t))"
proof -
  from email_row_Some(2)[OF r tof] have "check_duplicate d tid (email_id em) = Inr False" .
  then have "\<not> list_ex (\<lambda>x. source_email_id x = PStr (email_id em)) (rows t)"
    by (simp add: table_ok_check[OF ok tof] tt)
  then show ?thesis
    by (auto simp: email_row_Some(1)[OF r] list_ex_iff)
qed

lemma vendor_rows_ids:
  assumes ok: "table_ok a" and tof: "table_of a = Some tid"
    and tt: "tables d (oid_of tid) = Some t"
  shows "subseq (map invoice_email_id (vendor_rows d gw a v ems)) (map (\<lambda>em. PStr (email_id em)) ems)
       \<and> (\<forall>r\<in>set (vendor_rows d gw a v ems). invoice_email_id r \<notin> set (map source_email_id (rows t)))"
proof (induction ems)
  case Nil
  then show ?case by simp
next
  case (Cons em ems)
  from email_row_ok[OF ok] obtain x where x: "email_row d gw a v em = Inr x" by blast
  show ?case
  proof (cases x)
    case None
    with Cons x show ?thesis by (auto simp: vendor_rows_Cons[OF ok] intro: list_emb_Cons)
  next
    case (Some r)
    with x have r: "email_row d gw a v em = Inr (Some r)" by simp
    from Cons r email_row_Some(1)[OF r] email_row_fresh[OF ok tof tt r]
    show ?thesis by (simp add: vendor_rows_Cons[OF ok])
  qed
qed

lemma address_rows_ids:
  assumes ok: "table_ok a" and tof: "table_of a = Some tid"
    and tt: "tables d (oid_of tid) = Some t"
  shows "subseq (map invoice_email_id (address_rows d gw now a v addr))
                (map PStr (address_messages gw now a addr))
       \<and> (\<forall>r\<in>set (address_rows d gw now a v addr).
             invoice_email_id r \<notin> set (map source_email_id (rows t)))"
  using vendor_rows_ids[OF ok tof tt, of gw v]
  by (auto simp: address_rows_def address_messages_def comp_def split: sum.splits)

lemma vendor_all_rows_ids:
  assumes ok: "table_ok a" and tof: "table_of a = Some tid"
    and tt: "tables d (oid_of tid) = Some t"
  shows "subseq (map invoice_email_id (vendor_all_rows d gw now a v))
                (map PStr (vendor_messages gw now a v))
       \<and> (\<forall>r\<in>set (vendor_all_rows d gw now a v).
             invoice_email_id r \<notin> set (map source_email_id (rows t)))"
proof (cases "get_vendor_emails gw (user_id a) v")
  case (Inl e)
  then show ?thesis by (simp add: vendor_all_rows_def vendor_messages_def)
next
  case (Inr es)
  have "subseq (concat (map (\<lambda>addr. map invoice_email_id (address_rows d gw now a v addr)) es))
               (concat (map (\<lambda>addr. map PStr (address_messages gw now a addr)) es))"
    by (rule subseq_concat_map) (simp add: address_rows_ids[OF ok tof tt])
  then show ?thesis
    using address_rows_ids[OF ok tof tt, of gw now v]
    by (auto simp: vendor_all_rows_def vendor_messages_def Inr map_concat comp_def)
qed

lemma run_rows_ids:
  assumes ok: "table_ok a" and tof: "table_of a = Some tid"
    and tt: "tables d (oid_of tid) = Some t"
  shows "subseq (map invoice_email_id (run_rows d gw now a)) (map PStr (run_messages gw now a))
       \<and> (\<forall>r\<in>set (run_rows d gw now a).
             invoice_email_id r \<notin> set (map source_email_id (rows t)))"
proof -
  have "subseq (concat (map (\<lambda>v. map invoice_email_id (vendor_all_rows d gw now a v)) (auto_vendors a)))
               (concat (map (\<lambda>v. map PStr (vendor_messages gw now a v)) (auto_vendors a)))"
    by (rule subseq_concat_map) (simp add: vendor_all_rows_ids[OF ok tof tt])
  then show ?thesis
    using vendor_all_rows_ids[OF ok tof tt, of gw now]
    by (auto simp: run_rows_def run_messages_def map_concat comp_def)
qed

lemma bulk_rows_source_ids:
  "map source_email_id (bulk_rows now new_id src i xs) = map invoice_email_id xs"
  by (induction xs arbitrary: i) (auto simp: invoice_email_id_def)

lemma execute_actions_tables:
  assumes ok: "table_ok a"
    and res: "\<forall>v\<in>set (auto_vendors a). \<exists>es. get_vendor_emails gw (user_id a) v = Inr es"
    and tof: "table_of a = Some tid" and tt: "tables d (oid_of tid) = Some t"
  shows "\<exists>res d' t'. execute_actions d gw now nid oid a = Inr (res, d')
           \<and> tables d' (oid_of tid) = Some t'
           \<and> rows t' = rows t @ bulk_rows now nid (Some oid) 0 (run_rows d gw now a)"
proof -
  have sv: "search_vendors d gw now a (auto_vendors a) ([], 0) =
      Inr (run_rows d gw now a, length (run_messages gw now a))"
    using search_vendors_ok[OF ok res, of d now "[]" 0]
    by (simp add: run_rows_def run_messages_def)
  from table_ok_ObjectId[OF ok tof] have o: "ObjectId tid = Inr (oid_of tid)" .
  from bulk_total_fits[OF run_rows_fits[OF ok], of 0 d gw now]
  obtain x where x: "bulk_total 0 (run_rows d gw now a) = Inr x" by blast
  show ?thesis
    by (cases "run_rows d gw now a = []")
       (simp_all add: execute_actions_def sv tof add_rows_bulk_def Let_def o tt x)
qed

lemma execute_actions_unresolved:
  assumes "\<not> (\<forall>v\<in>set (auto_vendors a). \<exists>es. get_vendor_emails gw (user_id a) v = Inr es)"
  shows "\<exists>e. execute_actions d gw now nid oid a = Inl e"
proof (cases "search_vendors d gw now a (auto_vendors a) ([], 0)")
  case (Inl e)
  then show ?thesis by (simp add: execute_actions_def)
next
  case (Inr x)
  from search_vendors_Inr[OF Inr] assms show ?thesis by blast
qed

lemma new_ids_distinct:
  assumes ok: "table_ok a" and tof: "table_of a = Some tid"
    and tt: "tables d (oid_of tid) = Some t"
    and dt: "distinct (table_source_ids t)" and dm: "distinct (run_messages gw now a)"
    and rw: "rows t' = rows t @ bulk_rows now nid src 0 (run_rows d gw now a)"
  shows "distinct (table_source_ids t')"
    and "\<forall>x\<in>set (bulk_rows now nid src 0 (run_rows d gw now a)).
            source_email_id x \<notin> set (map source_email_id (rows t))"
proof -
  let ?rr = "run_rows d gw now a"
  note ids = run_rows_ids[OF ok tof tt, of gw now]
  have "distinct (map PStr (run_messages gw now a))"
    using dm by (simp add: distinct_map inj_on_def)
  with ids have d1: "distinct (map invoice_email_id ?rr)"
    by (blast intro: subseq_distinct)
  have fresh: "\<forall>r\<in>set ?rr. invoice_email_id r \<notin> set (map source_email_id (rows t))"
    using ids by blast
  have src: "map source_email_id (bulk_rows now nid src 0 ?rr) = map invoice_email_id ?rr"
    by (rule bulk_rows_source_ids)
  have eq: "table_source_ids t' =
      table_source_ids t @ filter (\<lambda>v. v \<noteq> PNone) (map invoice_email_id ?rr)"
    by (simp add: table_source_ids_def rw src)
  show "distinct (table_source_ids t')"
    unfolding eq using dt d1 fresh
    by (auto simp: table_source_ids_def image_iff) metis
  show "\<forall>x\<in>set (bulk_rows now nid src 0 ?rr).
            source_email_id x \<notin> set (map source_email_id (rows t))"
  proof
    fix x assume "x \<in> set (bulk_rows now nid src 0 ?rr)"
    then have "source_email_id x \<in> set (map source_email_id (bulk_rows now nid src 0 ?rr))"
      by simp
    then have "source_email_id x \<in> set (map invoice_email_id ?rr)"
      by (simp only: src)
    then obtain r where "r \<in> set ?rr" and "source_email_id x = invoice_email_id r"
      by auto
    with fresh show "source_email_id x \<notin> set (map source_email_id (rows t))"
      by simp
  qed
qed

lemma run_keeps_distinct:
  assumes o: "ObjectId automation_id = Inr oid" and s: "automations d oid = Some a"
    and tof: "table_of a = Some tid" and to: "ObjectId tid = Inr toid"
    and tt: "tables d toid = Some t"
    and dt: "distinct (table_source_ids t)" and dm: "distinct (run_messages gw now a)"
  shows "\<exists>r d' t' new a'.
      run_automation d gw now rid nid automation_id = Inr (r, d')
    \<and> tables d' toid = Some t' \<and> rows t' = rows t @ new
    \<and> distinct (table_source_ids t')
    \<and> (\<forall>x\<in>set new. source_email_id x \<notin> set (map source_email_id (rows t)))
    \<and> automations d' oid = Some a'
    \<and> user_id a' = user_id a \<and> account_id a' = account_id a
    \<and> auto_vendors a' = auto_vendors a \<and> table_id a' = table_id a"
proof -
  from ObjectId_Inr[OF to] have toid: "toid = oid_of tid" .
  have ok: "table_ok a" using tof to by (simp add: table_ok_def)
  note tt' = tt[unfolded toid]
  show ?thesis
  proof (cases "\<forall>v\<in>set (auto_vendors a). \<exists>es. get_vendor_emails gw (user_id a) v = Inr es")
    case True
    from execute_actions_tables[OF ok True tof tt', of now nid oid]
    obtain res d2 t' where x: "execute_actions d gw now nid oid a = Inr (res, d2)"
      and t': "tables d2 (oid_of tid) = Some t'"
      and rw: "rows t' = rows t @ bulk_rows now nid (Some oid) 0 (run_rows d gw now a)"
      by blast
    note nd = new_ids_distinct[OF ok tof tt' dt dm rw]
    show ?thesis
      using o s t' rw nd
      by (simp add: run_automation_def Let_def execute_actions_runs x toid)
  next
    case False
    from execute_actions_unresolved[OF False, of d now nid oid]
    obtain e where x: "execute_actions d gw now nid oid a = Inl e" by blast
    show ?thesis
      using o s tt dt
      by (simp add: run_automation_def Let_def execute_actions_runs x)
  qed
qed

lemma run_messages_cong:
  "user_id a' = user_id a \<Longrightarrow> account_id a' = account_id a \<Longrightarrow> auto_vendors a' = auto_vendors a
   \<Longrightarrow> run_messages gw now a' = run_messages gw now a"
proof -
  assume u: "user_id a' = user_id a" and c: "account_id a' = account_id a"
    and v: "auto_vendors a' = auto_vendors a"
  have "address_messages gw now a' = address_messages gw now a"
    by (intro ext) (simp add: address_messages_def c)
  then have "vendor_messages gw now a' = vendor_messages gw now a"
    by (intro ext) (simp add: vendor_messages_def u split: sum.splits)
  then show ?thesis by (simp add: run_messages_def v)
qed

lemma table_of_cong: "table_id a' = table_id a \<Longrightarrow> table_of a' = table_of a"
  by (simp add: table_of_def)

text \<open>
  C2, as the code has it. Two runs of an automation, one after the other, each with its
  own clock and its own answers of the gateway (so over windows that overlap or not).
  If the rows of the table carry pairwise distinct source ids before, and within each
  run no message id is returned twice by its searches, then both runs return, each
  appends rows to the table, the source ids are pairwise distinct after the first run
  and after the second, and no row of the second run carries a source id that the table
  held when that run began: a message already in the table is skipped.
\<close>

theorem rerun_no_duplicate_rows:
  assumes o: "ObjectId automation_id = Inr oid" and s: "automations d oid = Some a"
    and tof: "table_of a = Some tid" and to: "ObjectId tid = Inr toid"
    and tt: "tables d toid = Some t"
    and dt: "distinct (table_source_ids t)"
    and dm1: "distinct (run_messages gw1 now1 a)"
    and dm2: "distinct (run_messages gw2 now2 a)"
  shows "\<exists>r1 d1 r2 d2 t1 t2 new1 new2.
      run_automation d gw1 now1 rid1 nid1 automation_id = Inr (r1, d1)
    \<and> run_automation d1 gw2 now2 rid2 nid2 automation_id = Inr (r2, d2)
    \<and> tables d1 toid = Some t1 \<and> rows t1 = rows t @ new1
    \<and> tables d2 toid = Some t2 \<and> rows t2 = rows t1 @ new2
    \<and> distinct (table_source_ids t1)
    \<and> distinct (table_source_ids t2)
    \<and> (\<forall>x\<in>set new2. source_email_id x \<notin> set (map source_email_id (rows t1)))"
proof -
  from run_keeps_distinct[OF o s tof to tt dt dm1, of rid1 nid1]
  obtain r1 d1 t1 new1 a1 where
    run1: "run_automation d gw1 now1 rid1 nid1 automation_id = Inr (r1, d1)"
    and t1: "tables d1 toid = Some t1" and rw1: "rows t1 = rows t @ new1"
    and dt1: "distinct (table_source_ids t1)"
    and s1: "automations d1 oid = Some a1"
    and same: "user_id a1 = user_id a" "account_id a1 = account_id a"
      "auto_vendors a1 = auto_vendors a" "table_id a1 = table_id a"
    by blast
  have tof1: "table_of a1 = Some tid" using tof table_of_cong[OF same(4)] by simp
  have dm2': "distinct (run_messages gw2 now2 a1)"
    using dm2 run_messages_cong[OF same(1,2,3)] by simp
  from run_keeps_distinct[OF o s1 tof1 to t1 dt1 dm2', of rid2 nid2]
  obtain r2 d2 t2 new2 where
    run2: "run_automation d1 gw2 now2 rid2 nid2 automation_id = Inr (r2, d2)"
    and t2: "tables d2 toid = Some t2" and rw2: "rows t2 = rows t1 @ new2"
    and dt2: "distinct (table_source_ids t2)"
    and fresh: "\<forall>x\<in>set new2. source_email_id x \<notin> set (map source_email_id (rows t1))"
    by blast
  from run1 run2 t1 rw1 t2 rw2 dt1 dt2 fresh show ?thesis by blast
qed

lemma three_messages:
  "run_messages gw_three 100 automation_three = [''m1'', ''m2'', ''m3'']
   \<and> run_messages gw_three 200 automation_three = [''m1'', ''m2'', ''m3'']"
  by code_simp

lemma three_table: "table_of automation_three = Some oid_b"
  by code_simp

lemma three_twice:
  "source_ids_of (store_after (store_after db_three gw_three 100 ''run1'' ids0 oid_a)
       gw_three 200 ''run2'' ids0 oid_a) oid_b = [PStr ''m1'', PStr ''m2'', PStr ''m3'']"
  by code_simp

theorem rerun_no_duplicate_rows_witness:
  "ObjectId oid_a = Inr oid_a \<and> automations db_three oid_a = Some automation_three
   \<and> table_of automation_three = Some oid_b \<and> ObjectId oid_b = Inr oid_b
   \<and> tables db_three oid_b = Some table_empty
   \<and> distinct (table_source_ids table_empty)
   \<and> distinct (run_messages gw_three 100 automation_three)
   \<and> distinct (run_messages gw_three 200 automation_three)
   \<and> (\<exists>r1 d1 r2 d2 t2.
         run_automation db_three gw_three 100 ''run1'' ids0 oid_a = Inr (r1, d1)
       \<and> run_automation d1 gw_three 200 ''run2'' ids0 oid_a = Inr (r2, d2)
       \<and> tables d2 oid_b = Some t2
       \<and> distinct (table_source_ids t2))
   \<and> source_ids_of (store_after (store_after db_three gw_three 100 ''run1'' ids0 oid_a)
       gw_three 200 ''run2'' ids0 oid_a) oid_b = [PStr ''m1'', PStr ''m2'', PStr ''m3'']"
proof -
  have o: "ObjectId oid_a = Inr oid_a" by (rule ObjectId_oid_a)
  have s: "automations db_three oid_a = Some automation_three" by (simp add: db_three_def)
  note tof = three_table
  have to: "ObjectId oid_b = Inr oid_b" by (rule ObjectId_oid_b)
  have tt: "tables db_three oid_b = Some table_empty" by (simp add: db_three_def)
  have dt: "distinct (table_source_ids table_empty)"
    by (simp add: table_source_ids_def table_empty_def)
  have dm1: "distinct (run_messages gw_three 100 automation_three)"
    using three_messages by simp
  have dm2: "distinct (run_messages gw_three 200 automation_three)"
    using three_messages by simp
  from rerun_no_duplicate_rows[OF o s tof to tt dt dm1 dm2, of "''run1''" ids0 "''run2''" ids0]
  have "\<exists>r1 d1 r2 d2 t2.
         run_automation db_three gw_three 100 ''run1'' ids0 oid_a = Inr (r1, d1)
       \<and> run_automation d1 gw_three 200 ''run2'' ids0 oid_a = Inr (r2, d2)
       \<and> tables d2 oid_b = Some t2
       \<and> distinct (table_source_ids t2)"
    by blast
  with o s tof to tt dt dm1 dm2 three_twice show ?thesis by blast
qed

text \<open>
  C2 as stated fails. The duplicate check reads the table, and the rows of a run reach
  the table only after its loops, in the bulk insert. A message that two searches of one
  run return (here \<open>m1\<close>, returned for the vendor \<open>khadispal\<close> and for the vendor
  \<open>orcun\<close>) is no duplicate either time: from an empty table, the first run leaves two
  rows with the source id \<open>m1\<close>, and they are still there after the second run.
\<close>

theorem rerun_duplicate_rows_counterexample:
  "table_source_ids table_empty = []
   \<and> tables db_a oid_b = Some table_empty
   \<and> automations db_a oid_a = Some automation_a
   \<and> source_ids_of (store_after db_a gw_same 100 ''run1'' ids0 oid_a) oid_b
       = [PStr ''m1'', PStr ''m1'']
   \<and> source_ids_of (store_after (store_after db_a gw_same 100 ''run1'' ids0 oid_a)
        gw_same 200 ''run2'' ids0 oid_a) oid_b = [PStr ''m1'', PStr ''m1'']"
proof -
  have a: "table_source_ids table_empty = []"
    by (simp add: table_source_ids_def table_empty_def)
  have b: "tables db_a oid_b = Some table_empty" by (simp add: db_a_def)
  have c: "automations db_a oid_a = Some automation_a"
    by (simp add: db_a_def)
  have d: "source_ids_of (store_after db_a gw_same 100 ''run1'' ids0 oid_a) oid_b
       = [PStr ''m1'', PStr ''m1'']"
    by code_simp
  have e: "source_ids_of (store_after (store_after db_a gw_same 100 ''run1'' ids0 oid_a)
        gw_same 200 ''run2'' ids0 oid_a) oid_b = [PStr ''m1'', PStr ''m1'']"
    by code_simp
  from a b c d e show ?thesis by blast
qed

section \<open>The scheduler: properties\<close>

lemma schedule_automation_null_cron:
  "scheduler sch = Some jobs \<Longrightarrow> cron (auto_trigger a) = None \<Longrightarrow>
   schedule_automation sch d next_fire now oid a = (False, sch, d)"
  by (simp add: schedule_automation_def)

text \<open>
  What the operation does with a stored expression, on a started scheduler and a
  well-formed id. With fewer than five fields the default trigger (Monday 9:00) is
  installed under the id of the automation, the other jobs stay, and the result is
  \<open>True\<close>. With five fields or more, the trigger constructor decides: when it accepts
  the first five, the job is installed with that trigger; when it refuses them, the
  exception is caught with every other one, the result is \<open>False\<close>, and neither the jobs
  nor the store change.
\<close>

lemma schedule_automation_fields:
  assumes "scheduler sch = Some jobs" and "cron (auto_trigger a) = Some expr"
    and "ObjectId oid = Inr oid"
  shows "(length (py_split expr) < 5 \<longrightarrow>
            (\<exists>sch' d' jobs'. schedule_automation sch d next_fire now oid a = (True, sch', d')
               \<and> scheduler sch' = Some jobs'
               \<and> jobs' oid = Some \<lparr>job_args = [oid], job_name = auto_name a,
                                     job_trigger = default_trigger\<rparr>
               \<and> (\<forall>k. k \<noteq> oid \<longrightarrow> jobs' k = jobs k)))
       \<and> (5 \<le> length (py_split expr)
            \<and> CronTrigger_fields (py_split expr ! 0) (py_split expr ! 1) (py_split expr ! 2)
                 (py_split expr ! 3) (py_split expr ! 4) = Inl e
          \<longrightarrow> schedule_automation sch d next_fire now oid a = (False, sch, d))
       \<and> (5 \<le> length (py_split expr)
            \<and> CronTrigger_fields (py_split expr ! 0) (py_split expr ! 1) (py_split expr ! 2)
                 (py_split expr ! 3) (py_split expr ! 4) = Inr trig
          \<longrightarrow> (\<exists>sch' d' jobs'. schedule_automation sch d next_fire now oid a = (True, sch', d')
               \<and> scheduler sch' = Some jobs'
               \<and> jobs' oid = Some \<lparr>job_args = [oid], job_name = auto_name a,
                                     job_trigger = trig\<rparr>
               \<and> (\<forall>k. k \<noteq> oid \<longrightarrow> jobs' k = jobs k)))"
  using assms
  by (auto simp: schedule_automation_def Let_def)

lemma split_25h: "py_split ''0 25 * * 0'' = [''0'', ''25'', ''*'', ''*'', ''0'']"
  by code_simp

lemma split_short: "py_split ''0 9 * *'' = [''0'', ''9'', ''*'', ''*'']"
  by code_simp

lemma reject_25h:
  "CronTrigger_fields ''0'' ''25'' ''*'' ''*'' ''0'' = Inl (ValueError ''Unrecognized expression'')"
  by code_simp

lemma parse_25h:
  "map_option (\<lambda>cfg. cron (trigger cfg)) (parse_automation_request ''automatise a 25h'')
     = Some (Some ''0 25 * * 0'')"
  by code_simp

lemma schedule_short:
  "schedule_automation sched_started db_a next_hour 100 oid_a automation_short
     = (True,
        sched_started\<lparr>scheduler := Some [oid_a \<mapsto>
           \<lparr>job_args = [oid_a], job_name = auto_name automation_short,
            job_trigger = default_trigger\<rparr>]\<rparr>,
        db_a\<lparr>automations := [oid_a \<mapsto> automation_a\<lparr>next_run := Some 3700\<rparr>]\<rparr>)"
proof -
  have c: "cron (auto_trigger automation_short) = Some ''0 9 * *''"
    by (simp add: automation_short_def)
  show ?thesis
    by (simp add: schedule_automation_def c split_short sched_started_def ObjectId_oid_a
          db_a_def next_hour_def)
qed

text \<open>
  C8. The code has the fallback to Monday 9:00, and takes it only for an expression
  with fewer than five fields: the stored expression \<open>0 9 * *\<close> is scheduled with the
  default trigger. An expression that cannot be parsed into a valid trigger but has
  five fields misses it. The parser derives \<open>0 25 * * 0\<close> from the request
  \<open>automatise a 25h\<close>; the hour 25 is outside 0..23, the trigger constructor raises, and
  for the active automation stored with this expression the started scheduler returns
  \<open>False\<close>: it holds no job afterwards, and the store, where the automation is active
  with no next run, is as before.
\<close>

theorem schedule_automation_no_fallback:
  "started sched_started
   \<and> scheduler sched_started = Some Map.empty
   \<and> map_option (\<lambda>cfg. cron (trigger cfg)) (parse_automation_request ''automatise a 25h'')
       = Some (Some ''0 25 * * 0'')
   \<and> automations db_25h oid_a = Some automation_25h
   \<and> status automation_25h = ''active''
   \<and> next_run automation_25h = None
   \<and> cron (auto_trigger automation_25h) = Some ''0 25 * * 0''
   \<and> py_split ''0 25 * * 0'' = [''0'', ''25'', ''*'', ''*'', ''0'']
   \<and> schedule_automation sched_started db_25h next_hour 100 oid_a automation_25h
        = (False, sched_started, db_25h)
   \<and> cron (auto_trigger automation_short) = Some ''0 9 * *''
   \<and> (\<exists>sch' d' jobs'. schedule_automation sched_started db_a next_hour 100 oid_a automation_short
                          = (True, sch', d')
         \<and> scheduler sch' = Some jobs'
         \<and> map_option job_trigger (jobs' oid_a) = Some default_trigger)"
proof -
  have c1: "cron (auto_trigger automation_short) = Some ''0 9 * *''"
    by (simp add: automation_short_def)
  have c2: "cron (auto_trigger automation_25h) = Some ''0 25 * * 0''"
    by (simp add: automation_25h_def)
  have st: "automations db_25h oid_a = Some automation_25h \<and> status automation_25h = ''active''
            \<and> next_run automation_25h = None"
    by (simp add: db_25h_def automation_25h_def automation_a_def)
  have f: "schedule_automation sched_started db_25h next_hour 100 oid_a automation_25h
        = (False, sched_started, db_25h)"
    by (simp add: schedule_automation_def c2 split_25h reject_25h sched_started_def)
  have g: "\<exists>sch' d' jobs'. schedule_automation sched_started db_a next_hour 100 oid_a automation_short
                          = (True, sch', d')
         \<and> scheduler sch' = Some jobs'
         \<and> map_option job_trigger (jobs' oid_a) = Some default_trigger"
    by (simp add: schedule_short)
  from c1 c2 st f g parse_25h split_25h show ?thesis
    by (simp add: sched_started_def)
qed

end
